theory Spec2Isabelle
  imports Complex_Main
begin

section \<open>Python strings and dictionaries\<close>

text \<open>
  A Python \<open>str\<close> is modelled as a HOL \<open>string\<close>, one \<open>char\<close> per code point, so
  that indices, slices and lengths count what Python counts. The five non-ASCII symbols
  the source mentions are given fixed code points of an 8-bit code page.
  Case mapping and whitespace are the ASCII ones.
\<close>

definition GE_SIGN :: char where "GE_SIGN = CHR 0xF2"
definition LE_SIGN :: char where "LE_SIGN = CHR 0xF3"
definition EN_DASH :: char where "EN_DASH = CHR 0x96"
definition POUND :: char where "POUND = CHR 0xA3"
definition EURO :: char where "EURO = CHR 0x80"

definition is_space :: "char \<Rightarrow> bool" where
  "is_space c = List.member [CHR 0x09, CHR 0x0A, CHR 0x0B, CHR 0x0C, CHR 0x0D,
                             CHR 0x1C, CHR 0x1D, CHR 0x1E, CHR 0x1F, CHR 0x20] c"

definition strip :: "string \<Rightarrow> string" where
  "strip s = rev (dropWhile is_space (rev (dropWhile is_space s)))"

definition is_upper :: "char \<Rightarrow> bool" where
  "is_upper c = List.member ''ABCDEFGHIJKLMNOPQRSTUVWXYZ'' c"

definition is_lower :: "char \<Rightarrow> bool" where
  "is_lower c = List.member ''abcdefghijklmnopqrstuvwxyz'' c"

definition lower_char :: "char \<Rightarrow> char" where
  "lower_char c =
     (case map_of (zip ''ABCDEFGHIJKLMNOPQRSTUVWXYZ'' ''abcdefghijklmnopqrstuvwxyz'') c of
        Some d \<Rightarrow> d | None \<Rightarrow> c)"

definition upper_char :: "char \<Rightarrow> char" where
  "upper_char c =
     (case map_of (zip ''abcdefghijklmnopqrstuvwxyz'' ''ABCDEFGHIJKLMNOPQRSTUVWXYZ'') c of
        Some d \<Rightarrow> d | None \<Rightarrow> c)"

definition lower :: "string \<Rightarrow> string" where
  "lower s = map lower_char s"

text \<open>\<open>str.title()\<close>: a cased character is upper-cased when the character before it is
  not cased, lower-cased otherwise.\<close>

fun title_from :: "bool \<Rightarrow> string \<Rightarrow> string" where
  "title_from prev_cased [] = []"
| "title_from prev_cased (c # cs) =
     (if is_lower c then (if prev_cased then c else upper_char c) # title_from True cs
      else if is_upper c then (if prev_cased then lower_char c else c) # title_from True cs
      else c # title_from False cs)"

definition title :: "string \<Rightarrow> string" where
  "title s = title_from False s"

definition replace_char :: "char \<Rightarrow> char \<Rightarrow> string \<Rightarrow> string" where
  "replace_char old new s = map (\<lambda>c. if c = old then new else c) s"

definition remove_char :: "char \<Rightarrow> string \<Rightarrow> string" where
  "remove_char old s = filter (\<lambda>c. c \<noteq> old) s"

text \<open>\<open>s.split(sep)\<close> for a one-character separator: always at least one part.\<close>

fun split_on :: "char \<Rightarrow> string \<Rightarrow> string list" where
  "split_on sep [] = [[]]"
| "split_on sep (c # cs) =
     (if c = sep then [] # split_on sep cs
      else (case split_on sep cs of
              [] \<Rightarrow> [[c]]
            | p # ps \<Rightarrow> (c # p) # ps))"

text \<open>\<open>s.split(sep, 1)\<close>: split at the first occurrence only.\<close>

definition split_once :: "char \<Rightarrow> string \<Rightarrow> string list" where
  "split_once sep s =
     (if List.member s sep
      then [takeWhile (\<lambda>c. c \<noteq> sep) s, tl (dropWhile (\<lambda>c. c \<noteq> sep) s)]
      else [s])"

text \<open>\<open>sub in s\<close> on strings.\<close>

fun starts_with :: "string \<Rightarrow> string \<Rightarrow> bool" where
  "starts_with s [] = True"
| "starts_with [] (p # ps) = False"
| "starts_with (c # cs) (p # ps) = (c = p \<and> starts_with cs ps)"

fun contains :: "string \<Rightarrow> string \<Rightarrow> bool" where
  "contains [] sub = (sub = [])"
| "contains (c # cs) sub = (starts_with (c # cs) sub \<or> contains cs sub)"

text \<open>\<open>s[a:b]\<close> for \<open>0 \<le> a\<close>, \<open>0 \<le> b\<close>.\<close>

definition slice :: "nat \<Rightarrow> nat \<Rightarrow> string \<Rightarrow> string" where
  "slice a b s = take (b - a) (drop a s)"

text \<open>
  A \<open>dict\<close> keeps its keys in first-insertion order; assigning to a key that is present
  replaces the value in place. It is an association list built by \<open>dict_set\<close> only.
\<close>

type_synonym ('k, 'v) dict = "('k \<times> 'v) list"

fun dict_set :: "('k, 'v) dict \<Rightarrow> 'k \<Rightarrow> 'v \<Rightarrow> ('k, 'v) dict" where
  "dict_set [] k v = [(k, v)]"
| "dict_set ((k', v') # d) k v =
     (if k' = k then (k', v) # d else (k', v') # dict_set d k v)"

definition dict_keys :: "('k, 'v) dict \<Rightarrow> 'k list" where
  "dict_keys d = map fst d"

definition dict_has :: "('k, 'v) dict \<Rightarrow> 'k \<Rightarrow> bool" where
  "dict_has d k = List.member (dict_keys d) k"

definition dict_get :: "('k, 'v) dict \<Rightarrow> 'k \<Rightarrow> 'v option" where
  "dict_get d k = map_of d k"

section \<open>The external capabilities\<close>

text \<open>
  The libraries the source calls are not part of the repository; they are parameters of
  the model, collected in one record:
  \<^item> \<open>finditer key text\<close>: group 1 of every match, in order, of the compiled pattern
    stored under \<open>key\<close> in \<open>self.patterns\<close> (module \<open>re\<close>);
  \<^item> \<open>nlp_ents text\<close>: the entities of \<open>self.nlp(text).ents\<close> (spaCy);
  \<^item> \<open>fuzz_ratio\<close>: \<open>fuzz.ratio\<close> (fuzzywuzzy), a score from 0 to 100;
  \<^item> \<open>date_parse_ok s\<close>: \<open>dateutil.parser.parse(s)\<close> returns rather than raises;
  \<^item> \<open>dateparser_parse s\<close>: \<open>dateparser.parse(s)\<close>, \<open>None\<close> when it finds no date;
  \<^item> \<open>strftime_ymd\<close>: \<open>d.strftime('%Y-%m-%d')\<close>;
  \<^item> \<open>float_str\<close>: \<open>str(x)\<close> of a float cell of the master sheet.

  A naive \<open>datetime\<close> is year, month, day and the microsecond of the day, ordered
  lexicographically. A Python float is modelled by the exact rational its decimal
  literal denotes; binary rounding is not modelled.
\<close>

datatype datetime = Datetime nat nat nat nat

fun dt_le :: "datetime \<Rightarrow> datetime \<Rightarrow> bool" where
  "dt_le (Datetime y1 m1 d1 t1) (Datetime y2 m2 d2 t2) =
     (y1 < y2 \<or> (y1 = y2 \<and> (m1 < m2 \<or> (m1 = m2 \<and> (d1 < d2 \<or> (d1 = d2 \<and> t1 \<le> t2))))))"

datatype ent_label = DATE | PERCENT | MONEY | ORG | OTHER

record entity =
  label :: ent_label
  ent_text :: string
  start_char :: nat

record env =
  finditer :: "string \<Rightarrow> string \<Rightarrow> string list"
  nlp_ents :: "string \<Rightarrow> entity list"
  fuzz_ratio :: "string \<Rightarrow> string \<Rightarrow> nat"
  date_parse_ok :: "string \<Rightarrow> bool"
  dateparser_parse :: "string \<Rightarrow> datetime option"
  strftime_ymd :: "datetime \<Rightarrow> string"
  float_str :: "rat \<Rightarrow> string"

section \<open>The master sheet and the validation records\<close>

text \<open>
  A cell of the master sheet is empty (\<open>NaN\<close>, also standing for \<open>None\<close> and for an
  absent column), a string, or a number.
\<close>

datatype cell = NaN | Str string | Num rat

record master_row =
  mTerm :: string
  mExpected :: cell
  mRange :: cell

datatype status = Valid | Invalid | Unknown

datatype exn = ValueError string | TypeError | AttributeError | IndexError

text \<open>One constructor for each message the validator writes into \<open>Notes\<close>, carrying the
  values the message interpolates.\<close>

datatype vnote =
    NoNote
  | TermNotInMasterSheet
  | TermNotInDocument
  | NoValidationRules
  | DateMatchesExpected
  | DateAfterMinimum datetime
  | DateBeforeMinimum datetime
  | DateBeforeMaximum datetime
  | DateAfterMaximum datetime
  | DateWithinRange datetime datetime
  | DateOutsideRange datetime datetime
  | DateMismatch datetime cell
  | NoDateRules
  | DateValidationError exn
  | NumberMatchesExpected
  | NumberAtLeastMinimum rat
  | NumberBelowMinimum rat
  | NumberAtMostMaximum rat
  | NumberAboveMaximum rat
  | NumberWithinRange rat rat
  | NumberOutsideRange rat rat
  | NumberMismatch rat cell
  | NoNumericRules
  | NumericValidationError exn
  | TextMatchesExpected
  | TextMatchesWithSimilarity nat
  | TextMismatch nat
  | TextInAllowedValues
  | TextNotInAllowedValues "string list"
  | NoTextRules

record vrecord =
  rTerm :: string
  rExtracted :: string
  rStatus :: status
  rExpected :: cell
  rRange :: cell
  rNotes :: vnote

definition isna :: "cell \<Rightarrow> bool" where
  "isna c = (c = NaN)"

definition notna :: "cell \<Rightarrow> bool" where
  "notna c = (c \<noteq> NaN)"

definition cell_str :: "env \<Rightarrow> cell \<Rightarrow> string" where
  "cell_str E c = (case c of NaN \<Rightarrow> ''nan'' | Str s \<Rightarrow> s | Num x \<Rightarrow> float_str E x)"

section \<open>Numbers\<close>

definition is_digit :: "char \<Rightarrow> bool" where
  "is_digit c = List.member ''0123456789'' c"

definition digit_val :: "char \<Rightarrow> nat" where
  "digit_val c = (case map_of (zip ''0123456789'' [0, 1, 2, 3, 4, 5, 6, 7, 8, 9]) c of
                    Some n \<Rightarrow> n | None \<Rightarrow> 0)"

definition nat_of_digits :: "string \<Rightarrow> nat" where
  "nat_of_digits s = foldl (\<lambda>n c. 10 * n + digit_val c) 0 s"

text \<open>\<open>re.sub(r'[^0-9\.]', '', s.replace(',', ''))\<close>\<close>

definition numeric_chars :: "string \<Rightarrow> string" where
  "numeric_chars s = filter (\<lambda>c. is_digit c \<or> c = CHR ''.'') (remove_char CHR '','' s)"

text \<open>\<open>float(s)\<close> on a string of digits and points, which is all that
  \<open>numeric_chars\<close> leaves: digits, with at most one point, and at least one digit.\<close>

definition float_of_decimal :: "string \<Rightarrow> exn + rat" where
  "float_of_decimal s =
     (let ip = takeWhile is_digit s; rest = dropWhile is_digit s in
      if rest = [] then
        (if ip = [] then Inl (ValueError s) else Inr (of_nat (nat_of_digits ip)))
      else if hd rest = CHR ''.'' \<and> list_all is_digit (tl rest) \<and> (ip \<noteq> [] \<or> tl rest \<noteq> [])
      then Inr (of_nat (nat_of_digits ip)
                + of_nat (nat_of_digits (tl rest)) / 10 ^ length (tl rest))
      else Inl (ValueError s))"

text \<open>\<open>float(re.sub(r'[^0-9\.]', '', s.replace(',', '')))\<close>: how the extracted value, a
  string expected value and every range bound become numbers.\<close>

definition clean_float :: "string \<Rightarrow> exn + rat" where
  "clean_float s = float_of_decimal (numeric_chars s)"

text \<open>Whether \<open>float(s)\<close> accepts an arbitrary string: surrounding whitespace, a sign,
  then \<open>inf\<close>, \<open>infinity\<close> or \<open>nan\<close> in any case, or a decimal literal with optional
  exponent, whose digit groups may hold single underscores between digits.\<close>

fun digitpart_from :: "bool \<Rightarrow> string \<Rightarrow> bool" where
  "digitpart_from after_digit [] = after_digit"
| "digitpart_from after_digit (c # cs) =
     (if is_digit c then digitpart_from True cs
      else if c = CHR ''_'' \<and> after_digit then (cs \<noteq> [] \<and> is_digit (hd cs) \<and> digitpart_from False cs)
      else False)"

definition digitpart_ok :: "string \<Rightarrow> bool" where
  "digitpart_ok s = digitpart_from False s"

definition unsigned :: "string \<Rightarrow> string" where
  "unsigned s = (case s of [] \<Rightarrow> [] | c # cs \<Rightarrow> if c = CHR ''+'' \<or> c = CHR ''-'' then cs else s)"

definition mantissa_ok :: "string \<Rightarrow> bool" where
  "mantissa_ok m =
     (if List.member m CHR ''.''
      then (let ip = takeWhile (\<lambda>c. c \<noteq> CHR ''.'') m; fp = tl (dropWhile (\<lambda>c. c \<noteq> CHR ''.'') m)
            in (ip = [] \<or> digitpart_ok ip) \<and> (fp = [] \<or> digitpart_ok fp) \<and> (ip \<noteq> [] \<or> fp \<noteq> []))
      else digitpart_ok m)"

definition is_exp_char :: "char \<Rightarrow> bool" where
  "is_exp_char c = (c = CHR ''e'' \<or> c = CHR ''E'')"

definition decimal_ok :: "string \<Rightarrow> bool" where
  "decimal_ok u =
     (let m = takeWhile (\<lambda>c. \<not> is_exp_char c) u; r = dropWhile (\<lambda>c. \<not> is_exp_char c) u
      in mantissa_ok m \<and> (r = [] \<or> digitpart_ok (unsigned (tl r))))"

definition float_ok :: "string \<Rightarrow> bool" where
  "float_ok s =
     (let u = unsigned (strip s) in
      List.member [''inf'', ''infinity'', ''nan''] (lower u) \<or> decimal_ok u)"

text \<open>\<open>np.isclose(a, b, rtol=1e-5)\<close>, with numpy's default \<open>atol=1e-8\<close>.\<close>

definition isclose :: "rat \<Rightarrow> rat \<Rightarrow> bool" where
  "isclose a b = (\<bar>a - b\<bar> \<le> 1 / 10 ^ 8 + 1 / 10 ^ 5 * \<bar>b\<bar>)"

section \<open>The validator (\<open>validator.py\<close>)\<close>

subsection \<open>\<open>_determine_value_type\<close>\<close>

datatype value_type = DateValue | NumberValue | TextValue

text \<open>\<open>re.sub(r'[%$\<pounds>\<euro>,]', '', value_str)\<close>\<close>

definition strip_symbols :: "string \<Rightarrow> string" where
  "strip_symbols s =
     filter (\<lambda>c. \<not> List.member [CHR ''%'', CHR ''$'', POUND, EURO, CHR '',''] c) s"

definition determine_value_type :: "env \<Rightarrow> string \<Rightarrow> value_type" where
  "determine_value_type E value_str =
     (if date_parse_ok E value_str then DateValue
      else if float_ok (strip_symbols value_str) then NumberValue
      else TextValue)"

subsection \<open>\<open>_validate_number\<close>\<close>

text \<open>The expected number: \<open>None\<close> when the cell is empty; a string cell is cleaned
  and parsed, which may raise; a numeric cell is taken as it is.\<close>

definition expected_number :: "cell \<Rightarrow> exn + rat option" where
  "expected_number expected_value =
     (case expected_value of
        NaN \<Rightarrow> Inr None
      | Str s \<Rightarrow> (case clean_float s of
                    Inl e \<Rightarrow> Inl e
                  | Inr x \<Rightarrow> Inr (Some x))
      | Num x \<Rightarrow> Inr (Some x))"

text \<open>The delimiter of an interval: the en dash when there is one, else the hyphen.\<close>

definition has_delimiter :: "string \<Rightarrow> bool" where
  "has_delimiter range_str = (List.member range_str EN_DASH \<or> List.member range_str CHR ''-'')"

definition delimiter :: "string \<Rightarrow> char" where
  "delimiter range_str = (if List.member range_str EN_DASH then EN_DASH else CHR ''-'')"

text \<open>The range rules of a number: \<open>Inr None\<close> when no branch returns and control
  falls through to the lines after the range block.\<close>

definition number_range :: "env \<Rightarrow> rat \<Rightarrow> cell \<Rightarrow> exn + (bool \<times> vnote) option" where
  "number_range E extracted_num allowed_range =
     (if notna allowed_range then
        (let range_str = cell_str E allowed_range in
         if starts_with range_str [GE_SIGN] then
           (case clean_float (drop 1 range_str) of
              Inl e \<Rightarrow> Inl e
            | Inr min_val \<Rightarrow>
                if min_val \<le> extracted_num then Inr (Some (True, NumberAtLeastMinimum min_val))
                else Inr (Some (False, NumberBelowMinimum min_val)))
         else if starts_with range_str [LE_SIGN] then
           (case clean_float (drop 1 range_str) of
              Inl e \<Rightarrow> Inl e
            | Inr max_val \<Rightarrow>
                if extracted_num \<le> max_val then Inr (Some (True, NumberAtMostMaximum max_val))
                else Inr (Some (False, NumberAboveMaximum max_val)))
         else if has_delimiter range_str then
           (let parts = split_on (delimiter range_str) range_str in
            if length parts = 2 then
              (case clean_float (parts ! 0) of
                 Inl e \<Rightarrow> Inl e
               | Inr min_val \<Rightarrow>
                   (case clean_float (parts ! 1) of
                      Inl e \<Rightarrow> Inl e
                    | Inr max_val \<Rightarrow>
                        if min_val \<le> extracted_num \<and> extracted_num \<le> max_val
                        then Inr (Some (True, NumberWithinRange min_val max_val))
                        else Inr (Some (False, NumberOutsideRange min_val max_val))))
            else Inr None)
         else Inr None)
      else Inr None)"

text \<open>The body of the \<open>try\<close> block: \<open>Inl\<close> is a raised exception.\<close>

definition validate_number_try :: "env \<Rightarrow> string \<Rightarrow> cell \<Rightarrow> cell \<Rightarrow> exn + (bool \<times> vnote)" where
  "validate_number_try E extracted_str expected_value allowed_range =
     (case clean_float extracted_str of
        Inl e \<Rightarrow> Inl e
      | Inr extracted_num \<Rightarrow>
          (case expected_number expected_value of
             Inl e \<Rightarrow> Inl e
           | Inr expected_num \<Rightarrow>
               if (case expected_num of None \<Rightarrow> False | Some x \<Rightarrow> isclose extracted_num x)
               then Inr (True, NumberMatchesExpected)
               else
                 (case number_range E extracted_num allowed_range of
                    Inl e \<Rightarrow> Inl e
                  | Inr (Some r) \<Rightarrow> Inr r
                  | Inr None \<Rightarrow>
                      if notna expected_value
                      then Inr (False, NumberMismatch extracted_num expected_value)
                      else Inr (True, NoNumericRules))))"

definition validate_number :: "env \<Rightarrow> string \<Rightarrow> cell \<Rightarrow> cell \<Rightarrow> bool \<times> vnote" where
  "validate_number E extracted_str expected_value allowed_range =
     (case validate_number_try E extracted_str expected_value allowed_range of
        Inl e \<Rightarrow> (False, NumericValidationError e)
      | Inr r \<Rightarrow> r)"

subsection \<open>\<open>_validate_date\<close>\<close>

text \<open>\<open>a <= b\<close> on the results of \<open>dateparser.parse\<close>: comparing with \<open>None\<close> raises
  \<open>TypeError\<close>.\<close>

definition date_le :: "datetime option \<Rightarrow> datetime option \<Rightarrow> exn + bool" where
  "date_le a b =
     (case (a, b) of
        (Some x, Some y) \<Rightarrow> Inr (dt_le x y)
      | _ \<Rightarrow> Inl TypeError)"

text \<open>A method call on the result of \<open>dateparser.parse\<close>: on \<open>None\<close> it raises
  \<open>AttributeError\<close>.\<close>

definition the_date :: "datetime option \<Rightarrow> exn + datetime" where
  "the_date a = (case a of None \<Rightarrow> Inl AttributeError | Some x \<Rightarrow> Inr x)"

definition date_range :: "env \<Rightarrow> datetime option \<Rightarrow> cell \<Rightarrow> exn + (bool \<times> vnote) option" where
  "date_range E extracted_date allowed_range =
     (if notna allowed_range then
        (let range_str = cell_str E allowed_range in
         if starts_with range_str [GE_SIGN] then
           (let min_date = dateparser_parse E (drop 1 range_str) in
            case date_le min_date extracted_date of
              Inl e \<Rightarrow> Inl e
            | Inr b \<Rightarrow>
                (case the_date min_date of
                   Inl e \<Rightarrow> Inl e
                 | Inr m \<Rightarrow> Inr (Some (if b then (True, DateAfterMinimum m)
                                        else (False, DateBeforeMinimum m)))))
         else if starts_with range_str [LE_SIGN] then
           (let max_date = dateparser_parse E (drop 1 range_str) in
            case date_le extracted_date max_date of
              Inl e \<Rightarrow> Inl e
            | Inr b \<Rightarrow>
                (case the_date max_date of
                   Inl e \<Rightarrow> Inl e
                 | Inr m \<Rightarrow> Inr (Some (if b then (True, DateBeforeMaximum m)
                                        else (False, DateAfterMaximum m)))))
         else if has_delimiter range_str then
           (let parts = split_on (delimiter range_str) range_str in
            if length parts = 2 then
              (let min_date = dateparser_parse E (strip (parts ! 0));
                   max_date = dateparser_parse E (strip (parts ! 1)) in
               case date_le min_date extracted_date of
                 Inl e \<Rightarrow> Inl e
               | Inr lo \<Rightarrow>
                   (case (if lo then date_le extracted_date max_date else Inr False) of
                      Inl e \<Rightarrow> Inl e
                    | Inr inside \<Rightarrow>
                        (case the_date min_date of
                           Inl e \<Rightarrow> Inl e
                         | Inr mn \<Rightarrow>
                             (case the_date max_date of
                                Inl e \<Rightarrow> Inl e
                              | Inr mx \<Rightarrow>
                                  Inr (Some (if inside then (True, DateWithinRange mn mx)
                                             else (False, DateOutsideRange mn mx)))))))
            else Inr None)
         else Inr None)
      else Inr None)"

definition validate_date_try :: "env \<Rightarrow> string \<Rightarrow> cell \<Rightarrow> cell \<Rightarrow> exn + (bool \<times> vnote)" where
  "validate_date_try E extracted_str expected_value allowed_range =
     (let extracted_date = dateparser_parse E extracted_str in
      if notna expected_value
         \<and> extracted_date = dateparser_parse E (cell_str E expected_value)
      then Inr (True, DateMatchesExpected)
      else
        (case date_range E extracted_date allowed_range of
           Inl e \<Rightarrow> Inl e
         | Inr (Some r) \<Rightarrow> Inr r
         | Inr None \<Rightarrow>
             if notna expected_value
             then (case the_date extracted_date of
                     Inl e \<Rightarrow> Inl e
                   | Inr d \<Rightarrow> Inr (False, DateMismatch d expected_value))
             else Inr (True, NoDateRules)))"

definition validate_date :: "env \<Rightarrow> string \<Rightarrow> cell \<Rightarrow> cell \<Rightarrow> bool \<times> vnote" where
  "validate_date E extracted_str expected_value allowed_range =
     (case validate_date_try E extracted_str expected_value allowed_range of
        Inl e \<Rightarrow> (False, DateValidationError e)
      | Inr r \<Rightarrow> r)"

subsection \<open>\<open>_validate_text\<close>\<close>

definition validate_text :: "env \<Rightarrow> string \<Rightarrow> cell \<Rightarrow> cell \<Rightarrow> bool \<times> vnote" where
  "validate_text E extracted_str expected_value allowed_range =
     (if notna expected_value then
        (let expected_str = strip (cell_str E expected_value) in
         if lower extracted_str = lower expected_str then (True, TextMatchesExpected)
         else
           (let similarity = fuzz_ratio E (lower extracted_str) (lower expected_str) in
            if 90 \<le> similarity then (True, TextMatchesWithSimilarity similarity)
            else (False, TextMismatch similarity)))
      else if notna allowed_range \<and> List.member (cell_str E allowed_range) CHR ''|'' then
        (let valid_values = map strip (split_on CHR ''|'' (cell_str E allowed_range)) in
         if List.member valid_values extracted_str
            \<or> list_ex (\<lambda>v. lower extracted_str = lower v) valid_values
         then (True, TextInAllowedValues)
         else (False, TextNotInAllowedValues valid_values))
      else (True, NoTextRules))"

subsection \<open>\<open>_validate_value\<close>\<close>

definition validate_value :: "env \<Rightarrow> string \<Rightarrow> cell \<Rightarrow> cell \<Rightarrow> bool \<times> vnote" where
  "validate_value E extracted_value expected_value allowed_range =
     (if isna expected_value \<and> isna allowed_range then (True, NoValidationRules)
      else
        (let extracted_str = strip extracted_value in
         case determine_value_type E extracted_str of
           DateValue \<Rightarrow> validate_date E extracted_str expected_value allowed_range
         | NumberValue \<Rightarrow> validate_number E extracted_str expected_value allowed_range
         | TextValue \<Rightarrow> validate_text E extracted_str expected_value allowed_range))"

subsection \<open>\<open>validate_terms\<close>\<close>

text \<open>\<open>master_dict\<close>: a later row of the same term replaces the rule of an earlier one
  and keeps the earlier one's place.\<close>

definition master_dict :: "master_row list \<Rightarrow> (string, cell \<times> cell) dict" where
  "master_dict master_df =
     foldl (\<lambda>d row. dict_set d (mTerm row) (mExpected row, mRange row)) [] master_df"

definition validate_term :: "env \<Rightarrow> (string, cell \<times> cell) dict \<Rightarrow> string \<times> string \<Rightarrow> vrecord" where
  "validate_term E md item =
     (case item of (term, extracted_value) \<Rightarrow>
        (case dict_get md term of
           Some (expected_value, allowed_range) \<Rightarrow>
             (case validate_value E extracted_value expected_value allowed_range of
                (is_valid, notes) \<Rightarrow>
                  \<lparr>rTerm = term, rExtracted = extracted_value,
                   rStatus = (if is_valid then Valid else Invalid),
                   rExpected = expected_value, rRange = allowed_range, rNotes = notes\<rparr>)
         | None \<Rightarrow>
             \<lparr>rTerm = term, rExtracted = extracted_value, rStatus = Unknown,
              rExpected = Str ''N/A'', rRange = Str ''N/A'', rNotes = TermNotInMasterSheet\<rparr>))"

definition missing_record :: "string \<times> cell \<times> cell \<Rightarrow> vrecord" where
  "missing_record entry =
     (case entry of (term, expected_value, allowed_range) \<Rightarrow>
        \<lparr>rTerm = term, rExtracted = ''Missing'', rStatus = Invalid,
         rExpected = expected_value, rRange = allowed_range, rNotes = TermNotInDocument\<rparr>)"

definition validate_terms :: "env \<Rightarrow> (string, string) dict \<Rightarrow> master_row list \<Rightarrow> vrecord list" where
  "validate_terms E extracted_terms master_df =
     (let md = master_dict master_df in
      map (validate_term E md) extracted_terms
      @ map missing_record (filter (\<lambda>entry. \<not> dict_has extracted_terms (fst entry)) md))"

section \<open>The extractor and the normalizer (\<open>data_structurer.py\<close>)\<close>

definition financial_terms :: "string list" where
  "financial_terms =
     [''interest rate'', ''maturity date'', ''principal'', ''coupon'',
      ''governing law'', ''counterparty'', ''collateral'', ''amortization'',
      ''default rate'', ''prepayment penalty'', ''term'', ''closing date'',
      ''loan amount'', ''borrower'', ''lender'', ''facility'', ''commitment'',
      ''pricing'', ''margin'', ''fee'', ''documentation'', ''security'', ''covenant'',
      ''debt'', ''equity'', ''currency'', ''payment date'', ''repayment'', ''default'']"

text \<open>The keys of \<open>self.patterns\<close>, in the order the dictionary literal lists them.\<close>

definition pattern_keys :: "string list" where
  "pattern_keys =
     [''interest_rate'', ''maturity_date'', ''principal'', ''counterparty'',
      ''governing_law'', ''loan_amount'', ''borrower'', ''lender'']"

subsection \<open>\<open>structure_data\<close>: the regular expressions\<close>

text \<open>The loop over the matches of one pattern.\<close>

fun pattern_matches ::
  "string \<Rightarrow> string list \<Rightarrow> (string, string) dict \<Rightarrow> (string, string) dict" where
  "pattern_matches key [] terms = terms"
| "pattern_matches key (m # ms) terms =
     pattern_matches key ms
       (if \<not> dict_has terms key then dict_set terms key (strip m) else terms)"

fun pattern_loop ::
  "env \<Rightarrow> string \<Rightarrow> string list \<Rightarrow> (string, string) dict \<Rightarrow> (string, string) dict" where
  "pattern_loop E text [] terms = terms"
| "pattern_loop E text (key # keys) terms =
     pattern_loop E text keys (pattern_matches key (finditer E key text) terms)"

definition pattern_stage :: "env \<Rightarrow> string \<Rightarrow> (string, string) dict \<Rightarrow> (string, string) dict" where
  "pattern_stage E text terms = pattern_loop E text pattern_keys terms"

subsection \<open>\<open>structure_data\<close>: the recognized entities\<close>

text \<open>\<open>any(w in text[max(0, start - width):start].lower() for w in words)\<close>\<close>

definition context_has :: "string \<Rightarrow> nat \<Rightarrow> nat \<Rightarrow> string list \<Rightarrow> bool" where
  "context_has text start width words =
     (let ctx = lower (slice (start - width) start text) in list_ex (contains ctx) words)"

definition entity_maturity ::
  "env \<Rightarrow> string \<Rightarrow> entity list \<Rightarrow> (string, string) dict \<Rightarrow> (string, string) dict" where
  "entity_maturity E text ents terms =
     (if \<not> dict_has terms ''maturity_date'' then
        (case find (\<lambda>ent. label ent = DATE
                      \<and> context_has text (start_char ent) 40 [''maturity'', ''matures'', ''due''])
                ents of
           None \<Rightarrow> terms
         | Some ent \<Rightarrow>
             (case dateparser_parse E (ent_text ent) of
                Some parsed_date \<Rightarrow> dict_set terms ''maturity_date'' (strftime_ymd E parsed_date)
              | None \<Rightarrow> dict_set terms ''maturity_date'' (ent_text ent)))
      else terms)"

definition entity_rate ::
  "string \<Rightarrow> entity list \<Rightarrow> (string, string) dict \<Rightarrow> (string, string) dict" where
  "entity_rate text ents terms =
     (if \<not> dict_has terms ''interest_rate'' then
        (case find (\<lambda>ent. label ent = PERCENT
                      \<and> context_has text (start_char ent) 40 [''interest'', ''rate'', ''coupon''])
                ents of
           None \<Rightarrow> terms
         | Some ent \<Rightarrow> dict_set terms ''interest_rate'' (ent_text ent))
      else terms)"

definition entity_counterparty ::
  "entity list \<Rightarrow> (string, string) dict \<Rightarrow> (string, string) dict" where
  "entity_counterparty ents terms =
     (if \<not> dict_has terms ''counterparty'' then
        (case find (\<lambda>ent. label ent = ORG) ents of
           None \<Rightarrow> terms
         | Some ent \<Rightarrow> dict_set terms ''counterparty'' (ent_text ent))
      else terms)"

text \<open>The loop over money entities ends at the first one, whether or not its context
  names a principal.\<close>

definition entity_principal ::
  "string \<Rightarrow> entity list \<Rightarrow> (string, string) dict \<Rightarrow> (string, string) dict" where
  "entity_principal text ents terms =
     (if \<not> dict_has terms ''principal'' \<and> \<not> dict_has terms ''loan_amount'' then
        (case find (\<lambda>ent. label ent = MONEY) ents of
           None \<Rightarrow> terms
         | Some ent \<Rightarrow>
             if context_has text (start_char ent) 30 [''principal'', ''amount'']
             then dict_set terms ''principal'' (ent_text ent)
             else terms)
      else terms)"

definition entity_stage :: "env \<Rightarrow> string \<Rightarrow> (string, string) dict \<Rightarrow> (string, string) dict" where
  "entity_stage E text terms =
     (let ents = nlp_ents E (take 100000 text) in
      entity_principal text ents
        (entity_counterparty ents
          (entity_rate text ents
            (entity_maturity E text ents terms))))"

subsection \<open>\<open>structure_data\<close>: the lines\<close>

definition snake :: "string \<Rightarrow> string" where
  "snake s = replace_char CHR '' '' CHR ''_'' s"

text \<open>The loop over \<open>self.financial_terms\<close> that ends at the first term scoring above 65.\<close>

fun fuzzy_loop ::
  "env \<Rightarrow> string \<Rightarrow> string \<Rightarrow> string list \<Rightarrow> (string, string) dict \<Rightarrow> (string, string) dict" where
  "fuzzy_loop E key val [] terms = terms"
| "fuzzy_loop E key val (term # rest) terms =
     (if 65 < fuzz_ratio E key term then dict_set terms (snake term) val
      else fuzzy_loop E key val rest terms)"

text \<open>The body of the loop over the separators, for one line and one separator.\<close>

definition separator_step ::
  "env \<Rightarrow> string \<Rightarrow> char \<Rightarrow> (string, string) dict \<Rightarrow> (string, string) dict" where
  "separator_step E line separator terms =
     (if List.member line separator then
        (let parts = split_once separator line in
         if length parts = 2 then
           (let key = lower (strip (parts ! 0)); val = strip (parts ! 1) in
            if val = [] then terms
            else if List.member financial_terms key then dict_set terms (snake key) val
            else fuzzy_loop E key val financial_terms terms)
         else terms)
      else terms)"

definition separators :: "char list" where
  "separators = [CHR '':'', CHR ''-'', CHR ''='']"

definition line_step :: "env \<Rightarrow> string \<Rightarrow> (string, string) dict \<Rightarrow> (string, string) dict" where
  "line_step E line terms = foldl (\<lambda>t separator. separator_step E line separator t) terms separators"

definition line_stage :: "env \<Rightarrow> string \<Rightarrow> (string, string) dict \<Rightarrow> (string, string) dict" where
  "line_stage E text terms = foldl (\<lambda>t line. line_step E line t) terms (split_on CHR 0x0A text)"

definition structure_data :: "env \<Rightarrow> string \<Rightarrow> (string, string) dict" where
  "structure_data E text = line_stage E text (entity_stage E text (pattern_stage E text []))"

subsection \<open>\<open>normalize_terms\<close>\<close>

definition master_terms :: "master_row list \<Rightarrow> string list" where
  "master_terms master_df = map (\<lambda>row. lower (mTerm row)) master_df"

text \<open>\<open>master_df[master_df['Term'].str.lower() == name]['Term']\<close>\<close>

definition original_case_terms :: "master_row list \<Rightarrow> string \<Rightarrow> string list" where
  "original_case_terms master_df name =
     map mTerm (filter (\<lambda>row. lower (mTerm row) = name) master_df)"

text \<open>The loop that keeps \<open>best_match\<close> and \<open>best_score\<close>.\<close>

fun best_loop ::
  "env \<Rightarrow> string \<Rightarrow> string list \<Rightarrow> string option \<times> nat \<Rightarrow> string option \<times> nat" where
  "best_loop E display_key [] best = best"
| "best_loop E display_key (master_term # rest) (best_match, best_score) =
     (let score = fuzz_ratio E (lower display_key) (lower master_term) in
      best_loop E display_key rest
        (if best_score < score \<and> 60 < score then (Some master_term, score)
         else (best_match, best_score)))"

text \<open>The name under which one extracted key is stored; \<open>.iloc[0]\<close> of an empty
  selection raises \<open>IndexError\<close>.\<close>

definition normalize_key :: "env \<Rightarrow> master_row list \<Rightarrow> string \<Rightarrow> exn + string" where
  "normalize_key E master_df key =
     (let display_key = replace_char CHR ''_'' CHR '' '' key in
      if List.member (master_terms master_df) (lower display_key) then
        (case original_case_terms master_df (lower display_key) of
           [] \<Rightarrow> Inl IndexError
         | original_case_term # _ \<Rightarrow> Inr original_case_term)
      else
        (case best_loop E display_key (master_terms master_df) (None, 0) of
           (None, best_score) \<Rightarrow> Inr (title display_key)
         | (Some best_match, best_score) \<Rightarrow>
             if best_match \<noteq> [] then
               (case original_case_terms master_df best_match of
                  [] \<Rightarrow> Inr (title best_match)
                | original_case_term # _ \<Rightarrow> Inr original_case_term)
             else Inr (title display_key)))"

fun normalize_loop ::
  "env \<Rightarrow> master_row list \<Rightarrow> (string \<times> string) list \<Rightarrow> (string, string) dict
   \<Rightarrow> exn + (string, string) dict" where
  "normalize_loop E master_df [] normalized_terms = Inr normalized_terms"
| "normalize_loop E master_df ((key, val) # rest) normalized_terms =
     (case normalize_key E master_df key of
        Inl e \<Rightarrow> Inl e
      | Inr name \<Rightarrow> normalize_loop E master_df rest (dict_set normalized_terms name val))"

definition normalize_terms ::
  "env \<Rightarrow> (string, string) dict \<Rightarrow> master_row list \<Rightarrow> exn + (string, string) dict" where
  "normalize_terms E terms master_df = normalize_loop E master_df terms []"

section \<open>The pipeline (\<open>api.py\<close>)\<close>


section \<open>Sample environments\<close>

text \<open>
  Closed instances of the theorems below need concrete capabilities. The similarity is
  the normalized indel similarity \<open>2 * lcs / (|a| + |b|)\<close> as a rounded percentage, with
  100 for equal strings and 0 when one string is empty; the date parser reads
  \<open>YYYY-MM-DD\<close>, and \<open>MM-DD\<close> as a day of the current year.
\<close>

fun lcs_row :: "char \<Rightarrow> string \<Rightarrow> nat list \<Rightarrow> nat \<Rightarrow> nat list" where
  "lcs_row x (y # ys) (diag # up # prev) left =
     (let v = (if x = y then Suc diag else max up left) in v # lcs_row x ys (up # prev) v)"
| "lcs_row x ys prev left = []"

definition lcs_length :: "string \<Rightarrow> string \<Rightarrow> nat" where
  "lcs_length xs ys =
     last (foldl (\<lambda>prev x. 0 # lcs_row x ys prev 0) (replicate (Suc (length ys)) 0) xs)"

definition indel_ratio :: "string \<Rightarrow> string \<Rightarrow> nat" where
  "indel_ratio a b =
     (if a = b then 100
      else if a = [] \<or> b = [] then 0
      else (400 * lcs_length a b + (length a + length b)) div (2 * (length a + length b)))"

definition all_digits :: "nat \<Rightarrow> string \<Rightarrow> bool" where
  "all_digits n s = (length s = n \<and> list_all is_digit s)"

definition simple_date :: "nat \<Rightarrow> string \<Rightarrow> datetime option" where
  "simple_date this_year s =
     (case split_on CHR ''-'' s of
        [y, m, d] \<Rightarrow>
          if all_digits 4 y \<and> all_digits 2 m \<and> all_digits 2 d
          then Some (Datetime (nat_of_digits y) (nat_of_digits m) (nat_of_digits d) 0)
          else None
      | [m, d] \<Rightarrow>
          if all_digits 2 m \<and> all_digits 2 d
          then Some (Datetime this_year (nat_of_digits m) (nat_of_digits d) 0)
          else None
      | _ \<Rightarrow> None)"

text \<open>An environment without patterns, entities or dates.\<close>

definition plain_env :: env where
  "plain_env =
     \<lparr>finditer = (\<lambda>key text. []), nlp_ents = (\<lambda>text. []), fuzz_ratio = indel_ratio,
      date_parse_ok = (\<lambda>s. False), dateparser_parse = (\<lambda>s. None),
      strftime_ymd = (\<lambda>d. []), float_str = (\<lambda>x. [])\<rparr>"

text \<open>The end-to-end scenario of the specification: the text, the two master rules, and
  an environment for a run in the year \<open>this_year\<close>, in which the two patterns that
  occur in the text match and the recognizer finds the percentage and the date.\<close>

definition scenario_text :: string where
  "scenario_text = ''Interest Rate: 5.5%'' @ [CHR 0x0A] @ ''Maturity Date: 2030-01-01''"


definition scenario_env :: "nat \<Rightarrow> env" where
  "scenario_env this_year =
     \<lparr>finditer = (\<lambda>key text. if key = ''interest_rate'' then [''5.5'']
                             else if key = ''maturity_date'' then [''2030-01-01'']
                             else []),
      nlp_ents = (\<lambda>text. [\<lparr>label = PERCENT, ent_text = ''5.5%'', start_char = 15\<rparr>,
                           \<lparr>label = DATE, ent_text = ''2030-01-01'', start_char = 35\<rparr>]),
      fuzz_ratio = indel_ratio,
      date_parse_ok = (\<lambda>s. simple_date this_year s \<noteq> None),
      dateparser_parse = simple_date this_year,
      strftime_ymd = (\<lambda>d. []),
      float_str = (\<lambda>x. [])\<rparr>"

section \<open>Notions used in the statements\<close>

text \<open>The display form of an extracted key, and the score of a master row against it,
  as the loop of \<open>normalize_terms\<close> computes them.\<close>

definition display_form :: "string \<Rightarrow> string" where
  "display_form key = replace_char CHR ''_'' CHR '' '' key"

definition row_score :: "env \<Rightarrow> string \<Rightarrow> master_row \<Rightarrow> nat" where
  "row_score E key row = fuzz_ratio E (lower (display_form key)) (lower (mTerm row))"

text \<open>The name under which a key is stored, when \<open>normalize_key\<close> returns.\<close>

definition canonical_name :: "env \<Rightarrow> master_row list \<Rightarrow> string \<Rightarrow> string" where
  "canonical_name E master_df key =
     (case normalize_key E master_df key of Inr name \<Rightarrow> name | Inl e \<Rightarrow> [])"

text \<open>The assignment that one separator makes on one line, if it makes one, and the
  assignments of the whole line stage, in the order in which they are made.\<close>

definition separator_write :: "env \<Rightarrow> string \<Rightarrow> char \<Rightarrow> (string \<times> string) option" where
  "separator_write E line separator =
     (if List.member line separator then
        (let key = lower (strip (takeWhile (\<lambda>c. c \<noteq> separator) line));
             val = strip (tl (dropWhile (\<lambda>c. c \<noteq> separator) line)) in
         if val = [] then None
         else if List.member financial_terms key then Some (snake key, val)
         else (case find (\<lambda>term. 65 < fuzz_ratio E key term) financial_terms of
                 None \<Rightarrow> None
               | Some term \<Rightarrow> Some (snake term, val)))
      else None)"

definition line_writes :: "env \<Rightarrow> string \<Rightarrow> (string \<times> string) list" where
  "line_writes E text =
     concat (map (\<lambda>line. List.map_filter (separator_write E line) separators)
               (split_on CHR 0x0A text))"

section \<open>Properties of the numeric domain\<close>

lemma numeric_chars_idem: "numeric_chars (numeric_chars s) = numeric_chars s"
  by (induction s) (auto simp: numeric_chars_def remove_char_def is_digit_def)

lemma numeric_chars_minus: "numeric_chars (CHR ''-'' # s) = numeric_chars s"
  by (simp add: numeric_chars_def remove_char_def is_digit_def)

lemma numeric_chars_only: "set (numeric_chars s) \<subseteq> set ''0123456789.''"
  by (auto simp: numeric_chars_def is_digit_def)

lemma clean_float_minus: "clean_float (CHR ''-'' # s) = clean_float s"
  by (simp add: clean_float_def numeric_chars_minus)

lemma validate_number_minus:
  "validate_number E (CHR ''-'' # s) ev ar = validate_number E s ev ar"
  by (simp add: validate_number_def validate_number_try_def clean_float_minus)

lemma number_range_ge_minus:
  "number_range E x (Str (GE_SIGN # CHR ''-'' # b)) = number_range E x (Str (GE_SIGN # b))"
  by (simp add: number_range_def notna_def cell_str_def clean_float_minus)

lemma number_range_le_minus:
  "number_range E x (Str (LE_SIGN # CHR ''-'' # b)) = number_range E x (Str (LE_SIGN # b))"
  by (simp add: number_range_def notna_def cell_str_def clean_float_minus GE_SIGN_def LE_SIGN_def)

lemmas eval_number = clean_float_def numeric_chars_def remove_char_def is_digit_def
  float_of_decimal_def nat_of_digits_def digit_val_def

lemma clean_float_5: "clean_float ''5'' = Inr 5"
  by (simp add: eval_number)

lemma float_ok_minus5: "float_ok (strip_symbols ''-5'')"
  by (simp add: strip_symbols_def POUND_def EURO_def float_ok_def strip_def is_space_def
        unsigned_def lower_def lower_char_def decimal_ok_def is_exp_char_def mantissa_ok_def
        digitpart_ok_def is_digit_def)


text \<open>
  C10. In the numeric domain the cleaning step keeps only digits and the decimal point,
  in the extracted value and in each range bound, so a minus sign is discarded: the
  verdict on \<open>-s\<close> is the verdict on \<open>s\<close>, a bound \<open>-b\<close> is the bound \<open>b\<close>, and the
  extracted value \<open>-5\<close> is parsed and compared as 5. (It reaches the numeric domain
  when the date parser does not take it for a date.)
\<close>

theorem C10_minus_sign_discarded:
  "set (numeric_chars s) \<subseteq> set ''0123456789.''
   \<and> clean_float (CHR ''-'' # s) = clean_float s
   \<and> validate_number E (CHR ''-'' # s) expected_value allowed_range
       = validate_number E s expected_value allowed_range
   \<and> number_range E x (Str (GE_SIGN # CHR ''-'' # bound)) = number_range E x (Str (GE_SIGN # bound))
   \<and> number_range E x (Str (LE_SIGN # CHR ''-'' # bound)) = number_range E x (Str (LE_SIGN # bound))
   \<and> clean_float ''-5'' = Inr 5
   \<and> validate_number E ''-5'' expected_value allowed_range
       = validate_number E ''5'' expected_value allowed_range
   \<and> determine_value_type E ''-5'' = (if date_parse_ok E ''-5'' then DateValue else NumberValue)"
  using numeric_chars_only [of s] clean_float_minus [of s] clean_float_minus [of "''5''"]
    validate_number_minus number_range_ge_minus number_range_le_minus float_ok_minus5
  by (simp add: clean_float_5 determine_value_type_def)

theorem C10_minus_sign_discarded_witness:
  "validate_number plain_env ''-5'' (Str ''5'') NaN = (True, NumberMatchesExpected)
   \<and> validate_number plain_env ''-5'' NaN (Str (GE_SIGN # ''-3'')) = (True, NumberAtLeastMinimum 3)"
proof -
  have a: "validate_number plain_env ''5'' (Str ''5'') NaN = (True, NumberMatchesExpected)"
    by (simp add: validate_number_def validate_number_try_def expected_number_def isclose_def
          eval_number)
  have b: "number_range plain_env 5 (Str (GE_SIGN # ''3''))
             = Inr (Some (True, NumberAtLeastMinimum 3))"
    by (simp add: number_range_def notna_def cell_str_def eval_number)
  have c: "validate_number plain_env ''5'' NaN (Str (GE_SIGN # ''-3''))
             = (True, NumberAtLeastMinimum 3)"
    using C10_minus_sign_discarded [of "''5''" plain_env NaN NaN 5 "''3''"] b
    by (simp add: validate_number_def validate_number_try_def expected_number_def clean_float_5)
  show ?thesis
    using C10_minus_sign_discarded [of "''5''" plain_env "Str ''5''" NaN 5 "''3''"]
          C10_minus_sign_discarded [of "''5''" plain_env NaN "Str (GE_SIGN # ''-3'')" 5 "''3''"] a c
    by simp
qed



section \<open>Properties of dictionaries\<close>

lemma dict_has_iff: "dict_has d k \<longleftrightarrow> k \<in> set (map fst d)"
  by (simp add: dict_has_def dict_keys_def)

lemma dict_set_keys:
  "map fst (dict_set d k v) = (if k \<in> set (map fst d) then map fst d else map fst d @ [k])"
  by (induction d) (force simp: image_iff)+

lemma dict_set_map_of: "map_of (dict_set d k v) = (map_of d)(k \<mapsto> v)"
  by (induction d) (auto simp: fun_eq_iff)

lemma dict_set_distinct: "distinct (map fst d) \<Longrightarrow> distinct (map fst (dict_set d k v))"
  by (simp add: dict_set_keys)

lemma master_dict_snoc:
  "master_dict (rows @ [r]) = dict_set (master_dict rows) (mTerm r) (mExpected r, mRange r)"
  by (simp add: master_dict_def)

lemma master_dict_keys: "map fst (master_dict rows) = rev (remdups (rev (map mTerm rows)))"
proof (induction rows rule: rev_induct)
  case Nil
  show ?case by (simp add: master_dict_def)
next
  case (snoc r rows)
  have "set (map fst (master_dict rows)) = set (map mTerm rows)"
    by (simp add: snoc.IH)
  then show ?case
    by (simp add: master_dict_snoc dict_set_keys snoc.IH image_iff)
qed

lemma master_dict_distinct: "distinct (map fst (master_dict rows))"
  by (simp add: master_dict_keys)

lemma master_dict_set: "set (map fst (master_dict rows)) = set (map mTerm rows)"
  by (simp add: master_dict_keys)

lemma count_distinct:
  "distinct xs \<Longrightarrow> length (filter (\<lambda>x. x = T) xs) = (if T \<in> set xs then 1 else 0)"
  by (induction xs) auto

section \<open>Properties of \<open>validate_terms\<close>\<close>

lemma number_range_note:
  "number_range E x r = Inr (Some (b, n)) \<Longrightarrow> n \<noteq> TermNotInDocument"
  by (auto simp: number_range_def Let_def split: if_splits sum.splits)

lemma validate_number_note: "snd (validate_number E s e r) \<noteq> TermNotInDocument"
  by (auto simp: validate_number_def validate_number_try_def
           dest: number_range_note split: sum.splits option.splits if_splits)

lemma date_range_note:
  "date_range E x r = Inr (Some (b, n)) \<Longrightarrow> n \<noteq> TermNotInDocument"
  by (auto simp: date_range_def Let_def split: if_splits sum.splits)

lemma validate_date_note: "snd (validate_date E s e r) \<noteq> TermNotInDocument"
  by (auto simp: validate_date_def validate_date_try_def Let_def
           dest: date_range_note split: sum.splits option.splits if_splits)

lemma validate_text_note: "snd (validate_text E s e r) \<noteq> TermNotInDocument"
  by (simp add: validate_text_def Let_def)

lemma validate_value_note: "snd (validate_value E v e r) \<noteq> TermNotInDocument"
  by (simp add: validate_value_def Let_def validate_number_note validate_date_note
        validate_text_note split: value_type.splits)

lemma validate_term_term [simp]: "rTerm (validate_term E md (t, v)) = t"
  by (simp add: validate_term_def split: option.splits prod.splits)

lemma validate_term_extracted [simp]: "rExtracted (validate_term E md (t, v)) = v"
  by (simp add: validate_term_def split: option.splits prod.splits)

lemma validate_term_note: "rNotes (validate_term E md (t, v)) \<noteq> TermNotInDocument"
proof (cases "dict_get md t")
  case None
  then show ?thesis by (simp add: validate_term_def)
next
  case (Some rule)
  obtain e r where rule: "rule = (e, r)" by (cases rule)
  obtain b n where vv: "validate_value E v e r = (b, n)" by (cases "validate_value E v e r")
  have "n \<noteq> TermNotInDocument" using validate_value_note [of E v e r] vv by simp
  then show ?thesis using Some rule vv by (simp add: validate_term_def)
qed

lemma validate_term_status:
  "dict_get md t \<noteq> None \<Longrightarrow>
   rStatus (validate_term E md (t, v)) = Valid \<or> rStatus (validate_term E md (t, v)) = Invalid"
  by (auto simp: validate_term_def split: option.splits prod.splits)

lemma validate_term_unknown:
  "dict_get md t = None \<Longrightarrow> rStatus (validate_term E md (t, v)) = Unknown"
  by (simp add: validate_term_def)

lemma missing_record_fields [simp]:
  "rTerm (missing_record (t, e, r)) = t"
  "rExtracted (missing_record (t, e, r)) = ''Missing''"
  "rStatus (missing_record (t, e, r)) = Invalid"
  "rNotes (missing_record (t, e, r)) = TermNotInDocument"
  by (simp_all add: missing_record_def)

lemma map_rTerm_validate: "map rTerm (map (validate_term E md) xs) = map fst xs"
  by (induction xs) auto

lemma map_rTerm_missing: "map rTerm (map missing_record ys) = map fst ys"
  by (induction ys) auto

lemma filter_map_fst: "map fst (filter (\<lambda>entry. P (fst entry)) d) = filter P (map fst d)"
  by (induction d) auto

lemma dict_get_master: "dict_get (master_dict rows) t \<noteq> None \<longleftrightarrow> t \<in> set (map mTerm rows)"
  using master_dict_set [of rows] by (simp add: dict_get_def map_of_eq_None_iff)

lemma terms_of_validate_terms:
  "map rTerm (validate_terms E ex rows)
     = map fst ex @ filter (\<lambda>t. \<not> dict_has ex t) (rev (remdups (rev (map mTerm rows))))"
  using filter_map_fst [of "\<lambda>t. \<not> dict_has ex t" "master_dict rows"]
  by (simp add: validate_terms_def Let_def map_rTerm_validate map_rTerm_missing
        master_dict_keys del: map_map)

lemma length_filter_rTerm:
  "length (filter (\<lambda>r. rTerm r = T) out) = length (filter (\<lambda>t. t = T) (map rTerm out))"
  by (induction out) auto

lemma one_record:
  assumes "distinct (map fst ex)" and "T \<in> set (map mTerm rows)"
  shows "length (filter (\<lambda>r. rTerm r = T) (validate_terms E ex rows)) = 1"
proof -
  let ?miss = "filter (\<lambda>t. \<not> dict_has ex t) (rev (remdups (rev (map mTerm rows))))"
  have d2: "distinct ?miss" by simp
  have "length (filter (\<lambda>t. t = T) (map fst ex @ ?miss))
        = (if T \<in> set (map fst ex) then 1 else 0) + (if T \<in> set ?miss then 1 else 0)"
    using count_distinct [OF assms(1), of T] count_distinct [OF d2, of T] by simp
  also have "\<dots> = 1"
    using assms(2) by (auto simp: dict_has_iff)
  finally show ?thesis
    by (simp add: length_filter_rTerm terms_of_validate_terms)
qed

lemma missing_record_cases:
  "rec \<in> set (map missing_record ys) \<Longrightarrow>
   \<exists>t e r. (t, e, r) \<in> set ys \<and> rec = missing_record (t, e, r)"
  by auto

text \<open>
  C1. For every call of \<open>validate_terms\<close> (on a dictionary, whose keys are distinct) and
  every term \<open>T\<close> of the master sheet, the result holds exactly one record for \<open>T\<close>: when
  \<open>T\<close> is among the normalized keys it is the matched record (the extracted value, status
  Valid or Invalid, never the note of a missing term), otherwise the synthesized record
  with extracted value \<open>Missing\<close>. The result is the records of the input terms, in input
  order, followed by the missing records, in the order of the terms' first rows in the
  master sheet.
\<close>

theorem C1_one_record_per_master_term:
  assumes "distinct (dict_keys extracted_terms)"
      and "T \<in> set (map mTerm master_df)"
  shows "(\<exists>rec. filter (\<lambda>r. rTerm r = T) (validate_terms E extracted_terms master_df) = [rec]
            \<and> (if dict_has extracted_terms T
               then dict_get extracted_terms T = Some (rExtracted rec)
                    \<and> (rStatus rec = Valid \<or> rStatus rec = Invalid)
                    \<and> rNotes rec \<noteq> TermNotInDocument
               else rExtracted rec = ''Missing'' \<and> rStatus rec = Invalid
                    \<and> rNotes rec = TermNotInDocument))
       \<and> (\<exists>matched missing.
             validate_terms E extracted_terms master_df = matched @ missing
             \<and> map rTerm matched = dict_keys extracted_terms
             \<and> list_all (\<lambda>r. rNotes r \<noteq> TermNotInDocument) matched
             \<and> list_all (\<lambda>r. rExtracted r = ''Missing'' \<and> rStatus r = Invalid
                              \<and> rNotes r = TermNotInDocument) missing
             \<and> map rTerm missing
                 = filter (\<lambda>t. \<not> dict_has extracted_terms t)
                     (rev (remdups (rev (map mTerm master_df)))))"
proof -
  let ?md = "master_dict master_df"
  let ?A = "map (validate_term E ?md) extracted_terms"
  let ?B = "map missing_record (filter (\<lambda>entry. \<not> dict_has extracted_terms (fst entry)) ?md)"
  let ?out = "validate_terms E extracted_terms master_df"
  have out: "?out = ?A @ ?B"
    by (simp add: validate_terms_def Let_def)
  have dist: "distinct (map fst extracted_terms)"
    using assms(1) by (simp add: dict_keys_def)
  have "length (filter (\<lambda>r. rTerm r = T) ?out) = 1"
    using dist assms(2) by (rule one_record)
  then obtain rec where rec: "filter (\<lambda>r. rTerm r = T) ?out = [rec]"
    by (cases "filter (\<lambda>r. rTerm r = T) ?out") auto
  have "rec \<in> set (filter (\<lambda>r. rTerm r = T) ?out)"
    by (simp add: rec)
  then have mem: "rec \<in> set ?A \<or> rec \<in> set ?B" and rt: "rTerm rec = T"
    by (auto simp: out)
  have inA: "rec \<in> set ?A \<Longrightarrow> dict_has extracted_terms T
      \<and> dict_get extracted_terms T = Some (rExtracted rec)
      \<and> (rStatus rec = Valid \<or> rStatus rec = Invalid) \<and> rNotes rec \<noteq> TermNotInDocument"
  proof -
    assume "rec \<in> set ?A"
    then obtain t v where tv: "(t, v) \<in> set extracted_terms"
      and r: "rec = validate_term E ?md (t, v)" by auto
    have t: "t = T" using rt r by simp
    have has: "dict_has extracted_terms T"
      using tv t by (force simp: dict_has_iff)
    have get: "dict_get extracted_terms T = Some v"
      using tv t dist by (simp add: dict_get_def)
    have "dict_get ?md T \<noteq> None"
      using assms(2) dict_get_master [of master_df T] by blast
    then have "rStatus rec = Valid \<or> rStatus rec = Invalid"
      unfolding r t by (rule validate_term_status)
    then show ?thesis
      using has get r validate_term_note [of E ?md t v] by simp
  qed
  have inB: "rec \<in> set ?B \<Longrightarrow> \<not> dict_has extracted_terms T
      \<and> rExtracted rec = ''Missing'' \<and> rStatus rec = Invalid \<and> rNotes rec = TermNotInDocument"
  proof -
    assume "rec \<in> set ?B"
    then obtain t e r where
      "(t, e, r) \<in> set (filter (\<lambda>entry. \<not> dict_has extracted_terms (fst entry)) ?md)"
      and r: "rec = missing_record (t, e, r)"
      using missing_record_cases by blast
    then have "\<not> dict_has extracted_terms t" by simp
    then show ?thesis using rt r by simp
  qed
  have first: "if dict_has extracted_terms T
               then dict_get extracted_terms T = Some (rExtracted rec)
                    \<and> (rStatus rec = Valid \<or> rStatus rec = Invalid)
                    \<and> rNotes rec \<noteq> TermNotInDocument
               else rExtracted rec = ''Missing'' \<and> rStatus rec = Invalid
                    \<and> rNotes rec = TermNotInDocument"
    using mem inA inB by (cases "dict_has extracted_terms T") auto
  have a1: "map rTerm ?A = dict_keys extracted_terms"
    by (simp add: map_rTerm_validate dict_keys_def del: map_map)
  have a2: "list_all (\<lambda>r. rNotes r \<noteq> TermNotInDocument) ?A"
    by (auto simp: list_all_iff validate_term_note)
  have b1: "list_all (\<lambda>r. rExtracted r = ''Missing'' \<and> rStatus r = Invalid
                              \<and> rNotes r = TermNotInDocument) ?B"
    by (auto simp: list_all_iff)
  have b2: "map rTerm ?B = filter (\<lambda>t. \<not> dict_has extracted_terms t)
                     (rev (remdups (rev (map mTerm master_df))))"
    using filter_map_fst [of "\<lambda>t. \<not> dict_has extracted_terms t" ?md]
    by (simp add: map_rTerm_missing master_dict_keys del: map_map)
  show ?thesis
    using rec first out a1 a2 b1 b2 by blast
qed

theorem C1_one_record_per_master_term_witness:
  "(\<exists>rec. filter (\<lambda>r. rTerm r = ''Maturity Date'')
             (validate_terms plain_env [(''Principal'', ''1000'')]
                [\<lparr>mTerm = ''Maturity Date'', mExpected = NaN, mRange = Str (GE_SIGN # ''2025-01-01'')\<rparr>,
                 \<lparr>mTerm = ''Principal'', mExpected = Str ''1000'', mRange = NaN\<rparr>]) = [rec]
          \<and> rExtracted rec = ''Missing'' \<and> rStatus rec = Invalid
          \<and> rNotes rec = TermNotInDocument)
   \<and> (\<exists>rec. filter (\<lambda>r. rTerm r = ''Principal'')
             (validate_terms plain_env [(''Principal'', ''1000'')]
                [\<lparr>mTerm = ''Maturity Date'', mExpected = NaN, mRange = Str (GE_SIGN # ''2025-01-01'')\<rparr>,
                 \<lparr>mTerm = ''Principal'', mExpected = Str ''1000'', mRange = NaN\<rparr>]) = [rec]
          \<and> rExtracted rec = ''1000'' \<and> (rStatus rec = Valid \<or> rStatus rec = Invalid))
   \<and> length (validate_terms plain_env [(''Principal'', ''1000'')]
                [\<lparr>mTerm = ''Maturity Date'', mExpected = NaN, mRange = Str (GE_SIGN # ''2025-01-01'')\<rparr>,
                 \<lparr>mTerm = ''Principal'', mExpected = Str ''1000'', mRange = NaN\<rparr>]) = 2"
proof -
  let ?ex = "[(''Principal'', ''1000'')]"
  let ?df = "[\<lparr>mTerm = ''Maturity Date'', mExpected = NaN, mRange = Str (GE_SIGN # ''2025-01-01'')\<rparr>,
              \<lparr>mTerm = ''Principal'', mExpected = Str ''1000'', mRange = NaN\<rparr>]"
  have d: "distinct (dict_keys ?ex)" by (simp add: dict_keys_def)
  have m1: "''Maturity Date'' \<in> set (map mTerm ?df)" by simp
  have m2: "''Principal'' \<in> set (map mTerm ?df)" by simp
  have h1: "\<not> dict_has ?ex ''Maturity Date''" by (simp add: dict_has_def dict_keys_def)
  have h2: "dict_has ?ex ''Principal''" by (simp add: dict_has_def dict_keys_def)
  have g: "dict_get ?ex ''Principal'' = Some ''1000''" by (simp add: dict_get_def)
  have len: "length (validate_terms plain_env ?ex ?df) = 2"
    by (simp add: validate_terms_def master_dict_def dict_has_def dict_keys_def)
  from C1_one_record_per_master_term [OF d m1, of plain_env] h1
  have a: "\<exists>rec. filter (\<lambda>r. rTerm r = ''Maturity Date'') (validate_terms plain_env ?ex ?df) = [rec]
          \<and> rExtracted rec = ''Missing'' \<and> rStatus rec = Invalid
          \<and> rNotes rec = TermNotInDocument"
    by auto
  from C1_one_record_per_master_term [OF d m2, of plain_env] h2 g
  have b: "\<exists>rec. filter (\<lambda>r. rTerm r = ''Principal'') (validate_terms plain_env ?ex ?df) = [rec]
          \<and> rExtracted rec = ''1000'' \<and> (rStatus rec = Valid \<or> rStatus rec = Invalid)"
    by auto
  show ?thesis using a b len by blast
qed

section \<open>Malformed range bounds\<close>














lemma plain_env_simps [simp]:
  "date_parse_ok plain_env = (\<lambda>s. False)"
  "dateparser_parse plain_env = (\<lambda>s. None)"
  "fuzz_ratio plain_env = indel_ratio"
  by (simp_all add: plain_env_def)



section \<open>Properties of \<open>normalize_terms\<close>\<close>

lemma lower_char_idem: "lower_char (lower_char c) = lower_char c"
proof (cases "map_of (zip ''ABCDEFGHIJKLMNOPQRSTUVWXYZ'' ''abcdefghijklmnopqrstuvwxyz'') c")
  case None
  then show ?thesis by (simp add: lower_char_def)
next
  case (Some d)
  then have "(c, d) \<in> set (zip ''ABCDEFGHIJKLMNOPQRSTUVWXYZ'' ''abcdefghijklmnopqrstuvwxyz'')"
    by (rule map_of_SomeD)
  then have low: "d \<in> set ''abcdefghijklmnopqrstuvwxyz''"
    by (rule set_zip_rightD)
  have "set ''abcdefghijklmnopqrstuvwxyz'' \<inter> set ''ABCDEFGHIJKLMNOPQRSTUVWXYZ'' = {}"
    by simp
  then have "d \<notin> set ''ABCDEFGHIJKLMNOPQRSTUVWXYZ''"
    using low by blast
  then have "d \<notin> fst ` set (zip ''ABCDEFGHIJKLMNOPQRSTUVWXYZ'' ''abcdefghijklmnopqrstuvwxyz'')"
    using set_zip_leftD by fastforce
  then have "map_of (zip ''ABCDEFGHIJKLMNOPQRSTUVWXYZ'' ''abcdefghijklmnopqrstuvwxyz'') d = None"
    by (simp only: map_of_eq_None_iff not_False_eq_True)
  then show ?thesis using Some by (simp only: lower_char_def option.case)
qed

lemma lower_idem: "lower (lower s) = lower s"
  by (simp add: lower_def lower_char_idem)

lemma find_map_list: "find P (map g xs) = map_option g (find (\<lambda>x. P (g x)) xs)"
  by (induction xs) auto

lemma filter_case_find:
  "(case filter P xs of [] \<Rightarrow> a | x # rest \<Rightarrow> b x) = (case find P xs of None \<Rightarrow> a | Some x \<Rightarrow> b x)"
  by (induction xs) auto

lemma find_stronger:
  "find P xs = Some r \<Longrightarrow> Q r \<Longrightarrow> (\<And>x. Q x \<Longrightarrow> P x) \<Longrightarrow> find Q xs = Some r"
  by (induction xs) (auto split: if_splits)

lemma find_Some_props: "find P xs = Some r \<Longrightarrow> P r \<and> r \<in> set xs"
  by (induction xs) (auto split: if_splits)

lemma find_None_conv: "find P xs = None \<longleftrightarrow> (\<forall>x\<in>set xs. \<not> P x)"
  by (induction xs) auto

lemma best_loop_inv:
  fixes E dk
  defines "f \<equiv> \<lambda>t. fuzz_ratio E (lower dk) (lower t)"
  assumes "best_loop E dk ts (bm, bs) = (bm', bs')"
  shows "(\<forall>t\<in>set ts. f t \<le> bs' \<or> f t \<le> 60)
       \<and> ((bm', bs') = (bm, bs)
          \<or> (\<exists>pre t post. ts = pre @ t # post \<and> bm' = Some t \<and> f t = bs' \<and> 60 < bs'
                \<and> bs < bs' \<and> (\<forall>u\<in>set pre. f u < bs')))"
  using assms(2)
proof (induction ts arbitrary: bm bs)
  case Nil
  then show ?case by simp
next
  case (Cons t rest)
  show ?case
  proof (cases "bs < f t \<and> 60 < f t")
    case True
    then have run: "best_loop E dk rest (Some t, f t) = (bm', bs')"
      using Cons.prems by (simp add: f_def Let_def)
    note IH = Cons.IH [OF run]
    from IH have all: "\<forall>u\<in>set rest. f u \<le> bs' \<or> f u \<le> 60" by blast
    from IH consider
        (same) "(bm', bs') = (Some t, f t)"
      | (later) pre u post where "rest = pre @ u # post" "bm' = Some u" "f u = bs'"
          "60 < bs'" "f t < bs'" "\<forall>w\<in>set pre. f w < bs'"
      by blast
    then show ?thesis
    proof cases
      case same
      then have "t # rest = [] @ t # rest \<and> bm' = Some t \<and> f t = bs' \<and> 60 < bs' \<and> bs < bs'
                 \<and> (\<forall>u\<in>set []. f u < bs')"
        using True by simp
      then have "\<exists>pre u post. t # rest = pre @ u # post \<and> bm' = Some u \<and> f u = bs' \<and> 60 < bs'
                 \<and> bs < bs' \<and> (\<forall>w\<in>set pre. f w < bs')"
        by blast
      moreover have "\<forall>u\<in>set (t # rest). f u \<le> bs' \<or> f u \<le> 60"
        using all same by simp
      ultimately show ?thesis by blast
    next
      case later
      then have "t # rest = (t # pre) @ u # post \<and> bm' = Some u \<and> f u = bs' \<and> 60 < bs'
                 \<and> bs < bs' \<and> (\<forall>w\<in>set (t # pre). f w < bs')"
        using True by simp
      then have "\<exists>pre u post. t # rest = pre @ u # post \<and> bm' = Some u \<and> f u = bs' \<and> 60 < bs'
                 \<and> bs < bs' \<and> (\<forall>w\<in>set pre. f w < bs')"
        by blast
      moreover have "\<forall>u\<in>set (t # rest). f u \<le> bs' \<or> f u \<le> 60"
        using all later by simp
      ultimately show ?thesis by blast
    qed
  next
    case False
    then have run: "best_loop E dk rest (bm, bs) = (bm', bs')"
      using Cons.prems by (auto simp: f_def Let_def split: if_splits)
    note IH = Cons.IH [OF run]
    from IH have all: "\<forall>u\<in>set rest. f u \<le> bs' \<or> f u \<le> 60" by blast
    from IH consider
        (same) "(bm', bs') = (bm, bs)"
      | (later) pre u post where "rest = pre @ u # post" "bm' = Some u" "f u = bs'"
          "60 < bs'" "bs < bs'" "\<forall>w\<in>set pre. f w < bs'"
      by blast
    then show ?thesis
    proof cases
      case same
      moreover have "\<forall>u\<in>set (t # rest). f u \<le> bs' \<or> f u \<le> 60"
        using all same False by auto
      ultimately show ?thesis by blast
    next
      case later
      have ft: "f t < bs'" using False later(4,5) by linarith
      then have "t # rest = (t # pre) @ u # post \<and> bm' = Some u \<and> f u = bs' \<and> 60 < bs'
                 \<and> bs < bs' \<and> (\<forall>w\<in>set (t # pre). f w < bs')"
        using later by simp
      then have "\<exists>pre u post. t # rest = pre @ u # post \<and> bm' = Some u \<and> f u = bs' \<and> 60 < bs'
                 \<and> bs < bs' \<and> (\<forall>w\<in>set pre. f w < bs')"
        by blast
      moreover have "\<forall>u\<in>set (t # rest). f u \<le> bs' \<or> f u \<le> 60"
        using all ft by simp
      ultimately show ?thesis by blast
    qed
  qed
qed

lemma find_append_first:
  "\<forall>x\<in>set pre. \<not> P x \<Longrightarrow> P r \<Longrightarrow> find P (pre @ r # post) = Some r"
  by (induction pre) auto

lemma filter_append_first:
  "\<forall>x\<in>set pre. \<not> P x \<Longrightarrow> P r \<Longrightarrow> filter P (pre @ r # post) = r # filter P post"
  by (induction pre) auto

lemma normalize_key_fallback:
  assumes "lower (display_form key) \<notin> set (master_terms master_df)"
    and "best_loop E (display_form key) (master_terms master_df) (None, 0) = (None, 0)"
  shows "normalize_key E master_df key = Inr (title (display_form key))"
  using assms by (simp add: normalize_key_def display_form_def)

lemma normalize_key_match:
  assumes "lower (display_form key) \<notin> set (master_terms master_df)"
    and "best_loop E (display_form key) (master_terms master_df) (None, 0) = (Some t, s)"
    and "t \<noteq> []"
    and "original_case_terms master_df t = c # cs"
  shows "normalize_key E master_df key = Inr c"
  using assms by (simp add: normalize_key_def display_form_def)

text \<open>
  C5. In \<open>normalize_terms\<close>, an extracted key without an exact case-insensitive match in
  the vocabulary is stored under the first master term, in table order, whose similarity
  to the key's display form is the maximum over the table, when that maximum is above
  60; under the title-cased display form when the maximum is 60 or below (or the table
  is empty). The similarity of a non-empty string with the empty string is at most 60,
  as it is for \<open>fuzz.ratio\<close>, which gives 0.
\<close>

theorem C5_fuzzy_match_first_maximum:
  assumes "lower (display_form key) \<notin> set (master_terms master_df)"
      and "\<forall>s. s \<noteq> [] \<longrightarrow> fuzz_ratio E s [] \<le> 60"
  shows "normalize_key E master_df key =
     Inr (case find (\<lambda>row. row_score E key row = Max (row_score E key ` set master_df)) master_df of
            Some row \<Rightarrow> if 60 < row_score E key row then mTerm row
                        else title (display_form key)
          | None \<Rightarrow> title (display_form key))"
proof -
  let ?dk = "display_form key"
  let ?ts = "master_terms master_df"
  let ?f = "\<lambda>t. fuzz_ratio E (lower ?dk) (lower t)"
  let ?sc = "row_score E key"
  let ?M = "Max (?sc ` set master_df)"
  have sc: "\<And>row. ?f (lower (mTerm row)) = ?sc row"
    by (simp add: row_score_def lower_idem)
  obtain bm' bs' where run: "best_loop E ?dk ?ts (None, 0) = (bm', bs')"
    by (cases "best_loop E ?dk ?ts (None, 0)")
  note inv = best_loop_inv [OF run]
  from inv have all: "\<forall>t\<in>set ?ts. ?f t \<le> bs' \<or> ?f t \<le> 60" by blast
  then have all_rows: "\<forall>row\<in>set master_df. ?sc row \<le> bs' \<or> ?sc row \<le> 60"
    using sc by (simp add: master_terms_def)
  from inv consider
      (same) "(bm', bs') = (None, 0)"
    | (found) pre t post where "?ts = pre @ t # post" "bm' = Some t" "?f t = bs'" "60 < bs'"
        "\<forall>u\<in>set pre. ?f u < bs'"
    by blast
  then show ?thesis
  proof cases
    case same
    then have nk: "normalize_key E master_df key = Inr (title ?dk)"
      using normalize_key_fallback [OF assms(1)] run by simp
    have low: "\<forall>row\<in>set master_df. ?sc row \<le> 60"
      using all_rows same by auto
    show ?thesis
    proof (cases "find (\<lambda>row. ?sc row = ?M) master_df")
      case None
      then show ?thesis using nk by simp
    next
      case (Some row)
      then have "row \<in> set master_df" using find_Some_props by fast
      then have "\<not> 60 < ?sc row" using low by auto
      then show ?thesis using nk Some by simp
    qed
  next
    case found
    from found(1) obtain dpre r dpost where
      df: "master_df = dpre @ r # dpost" and pre: "map (\<lambda>row. lower (mTerm row)) dpre = pre"
      and r: "lower (mTerm r) = t"
      unfolding master_terms_def by (auto simp: map_eq_append_conv map_eq_Cons_conv)
    have scr: "?sc r = bs'" using found(3) r sc by auto
    have before: "\<forall>row\<in>set dpre. ?sc row < bs'"
    proof
      fix row assume "row \<in> set dpre"
      then have "lower (mTerm row) \<in> set pre" using pre by auto
      then have "?f (lower (mTerm row)) < bs'" using found(5) by blast
      then show "?sc row < bs'" using sc by simp
    qed
    have upper: "\<forall>row\<in>set master_df. ?sc row \<le> bs'"
      using all_rows found(4) by auto
    have "r \<in> set master_df" using df by simp
    then have M: "?M = bs'"
      using upper scr by (intro Max_eqI) auto
    have "find (\<lambda>row. ?sc row = bs') (dpre @ r # dpost) = Some r"
      using before scr by (intro find_append_first) auto
    then have "find (\<lambda>row. ?sc row = bs') master_df = Some r"
      by (simp only: df)
    then have fnd: "find (\<lambda>row. ?sc row = ?M) master_df = Some r"
      by (simp only: M)
    have tne: "t \<noteq> []"
    proof
      assume "t = []"
      then have "[] \<in> set ?ts" using found(1) by simp
      then have "lower ?dk \<noteq> []" using assms(1) by auto
      then have "fuzz_ratio E (lower ?dk) [] \<le> 60" using assms(2) by blast
      then have "?f t \<le> 60" using \<open>t = []\<close> by (simp add: lower_def)
      then show False using found(3,4) by simp
    qed
    have nb: "\<forall>row\<in>set dpre. \<not> lower (mTerm row) = t"
    proof
      fix row assume a: "row \<in> set dpre"
      show "\<not> lower (mTerm row) = t"
      proof
        assume "lower (mTerm row) = t"
        then have "?sc row = bs'" using sc [of row] found(3) by simp
        then show False using before a by auto
      qed
    qed
    have "filter (\<lambda>row. lower (mTerm row) = t) master_df
            = r # filter (\<lambda>row. lower (mTerm row) = t) dpost"
      unfolding df using nb r by (rule filter_append_first)
    then have oc: "original_case_terms master_df t
            = mTerm r # map mTerm (filter (\<lambda>row. lower (mTerm row) = t) dpost)"
      by (simp add: original_case_terms_def)
    have "best_loop E ?dk ?ts (None, 0) = (Some t, bs')"
      using run found(2) by simp
    then have "normalize_key E master_df key = Inr (mTerm r)"
      using normalize_key_match [OF assms(1) _ tne oc] by simp
    then show ?thesis
      using fnd scr found(4) by simp
  qed
qed

lemmas eval_text = display_form_def replace_char_def lower_def lower_char_def master_terms_def
  row_score_def title_def is_lower_def is_upper_def upper_char_def

text \<open>A score of 61 for one term and 0 for the others matches that term; a score of 60
  gives the title-cased fallback; of two terms with the same score the first wins.\<close>

theorem C5_fuzzy_match_first_maximum_witness:
  "normalize_key (plain_env\<lparr>fuzz_ratio := (\<lambda>a b. if b = ''interest rate'' then 61 else 0)\<rparr>)
      [\<lparr>mTerm = ''Maturity Date'', mExpected = NaN, mRange = NaN\<rparr>,
       \<lparr>mTerm = ''Interest Rate'', mExpected = NaN, mRange = NaN\<rparr>] ''intrest_rt''
     = Inr ''Interest Rate''
   \<and> normalize_key (plain_env\<lparr>fuzz_ratio := (\<lambda>a b. if b = ''interest rate'' then 60 else 0)\<rparr>)
      [\<lparr>mTerm = ''Maturity Date'', mExpected = NaN, mRange = NaN\<rparr>,
       \<lparr>mTerm = ''Interest Rate'', mExpected = NaN, mRange = NaN\<rparr>] ''intrest_rt''
     = Inr ''Intrest Rt''
   \<and> normalize_key (plain_env\<lparr>fuzz_ratio := (\<lambda>a b. if b = [] then 0 else 70)\<rparr>)
      [\<lparr>mTerm = ''Maturity Date'', mExpected = NaN, mRange = NaN\<rparr>,
       \<lparr>mTerm = ''Interest Rate'', mExpected = NaN, mRange = NaN\<rparr>] ''intrest_rt''
     = Inr ''Maturity Date''"
proof -
  let ?df = "[\<lparr>mTerm = ''Maturity Date'', mExpected = NaN, mRange = NaN\<rparr>,
              \<lparr>mTerm = ''Interest Rate'', mExpected = NaN, mRange = NaN\<rparr>]"
  have ne: "lower (display_form ''intrest_rt'') \<notin> set (master_terms ?df)"
    by (simp add: eval_text)
  have t: "title (display_form ''intrest_rt'') = ''Intrest Rt''"
    by (simp add: eval_text)
  have a: "normalize_key (plain_env\<lparr>fuzz_ratio := (\<lambda>a b. if b = ''interest rate'' then 61 else 0)\<rparr>)
             ?df ''intrest_rt'' = Inr ''Interest Rate''"
    using C5_fuzzy_match_first_maximum
      [of "''intrest_rt''" ?df "plain_env\<lparr>fuzz_ratio := (\<lambda>a b. if b = ''interest rate'' then 61 else 0)\<rparr>", OF ne]
    by (simp add: row_score_def lower_def lower_char_def)
  have b: "normalize_key (plain_env\<lparr>fuzz_ratio := (\<lambda>a b. if b = ''interest rate'' then 60 else 0)\<rparr>)
             ?df ''intrest_rt'' = Inr ''Intrest Rt''"
    using C5_fuzzy_match_first_maximum
      [of "''intrest_rt''" ?df "plain_env\<lparr>fuzz_ratio := (\<lambda>a b. if b = ''interest rate'' then 60 else 0)\<rparr>", OF ne]
    by (simp add: row_score_def lower_def lower_char_def t)
  have c: "normalize_key (plain_env\<lparr>fuzz_ratio := (\<lambda>a b. if b = [] then 0 else 70)\<rparr>)
             ?df ''intrest_rt'' = Inr ''Maturity Date''"
    using C5_fuzzy_match_first_maximum
      [of "''intrest_rt''" ?df "plain_env\<lparr>fuzz_ratio := (\<lambda>a b. if b = [] then 0 else 70)\<rparr>", OF ne]
    by (simp add: row_score_def lower_def lower_char_def)
  show ?thesis using a b c by blast
qed

lemma normalize_key_total: "normalize_key E df k = Inr (canonical_name E df k)"
proof -
  let ?dk = "replace_char CHR ''_'' CHR '' '' k"
  show ?thesis
  proof (cases "List.member (master_terms df) (lower ?dk)")
    case True
    then obtain row where "row \<in> set df" "lower (mTerm row) = lower ?dk"
      by (auto simp: master_terms_def)
    then have "filter (\<lambda>row. lower (mTerm row) = lower ?dk) df \<noteq> []"
      by (auto simp: filter_empty_conv)
    then obtain c cs where "original_case_terms df (lower ?dk) = c # cs"
      by (cases "original_case_terms df (lower ?dk)") (auto simp: original_case_terms_def)
    then show ?thesis
      using True by (simp add: canonical_name_def normalize_key_def)
  next
    case False
    then show ?thesis
      by (auto simp: canonical_name_def normalize_key_def Let_def
               split: option.splits list.splits prod.splits)
  qed
qed

lemma normalize_loop_fold:
  "normalize_loop E df items d
     = Inr (foldl (\<lambda>d item. dict_set d (canonical_name E df (fst item)) (snd item)) d items)"
  by (induction items arbitrary: d) (auto simp: normalize_key_total)

lemma fold_set_map_of:
  "map_of (foldl (\<lambda>d item. dict_set d (g (fst item)) (snd item)) d items) c
     = (case map_of (rev (map (\<lambda>item. (g (fst item), snd item)) items)) c of
          Some v \<Rightarrow> Some v
        | None \<Rightarrow> map_of d c)"
  by (induction items arbitrary: d)
     (auto simp: dict_set_map_of map_of_append map_add_def split: option.splits)

lemma dict_set_keyset: "set (map fst (dict_set d k v)) = insert k (set (map fst d))"
  by (simp only: dict_set_keys) auto

lemma fold_set_keys:
  "set (map fst (foldl (\<lambda>d item. dict_set d (g (fst item)) (snd item)) d items))
     = set (map fst d) \<union> g ` fst ` set items"
proof (induction items arbitrary: d)
  case Nil
  show ?case by simp
next
  case (Cons item items)
  have "set (map fst (foldl (\<lambda>d item. dict_set d (g (fst item)) (snd item))
                        (dict_set d (g (fst item)) (snd item)) items))
          = set (map fst (dict_set d (g (fst item)) (snd item))) \<union> g ` fst ` set items"
    by (rule Cons.IH)
  also have "\<dots> = insert (g (fst item)) (set (map fst d)) \<union> g ` fst ` set items"
    by (simp only: dict_set_keyset)
  finally show ?case by simp
qed

lemma fold_set_distinct:
  "distinct (map fst d) \<Longrightarrow>
   distinct (map fst (foldl (\<lambda>d item. dict_set d (g (fst item)) (snd item)) d items))"
  by (induction items arbitrary: d) (auto simp: dict_set_distinct)

lemma key_count:
  "distinct (map fst d) \<Longrightarrow>
   length (filter (\<lambda>entry. fst entry = c) d) = (if c \<in> set (map fst d) then 1 else 0)"
  by (induction d) (auto simp: image_iff)

text \<open>
  C9. When two extracted keys normalize to the same canonical name, the normalized
  mapping holds a single entry for that name, whose value is that of the key processed
  last among those that normalize to it; the normalized mapping is then shorter than the
  extracted one. (\<open>normalize_terms\<close> always returns.)
\<close>

theorem C9_last_writer_wins:
  assumes "terms = xs @ (k1, v1) # ys @ (k2, v2) # zs"
      and "normalize_key E master_df k1 = Inr c"
      and "normalize_key E master_df k2 = Inr c"
      and "\<forall>item\<in>set zs. normalize_key E master_df (fst item) \<noteq> Inr c"
  shows "\<exists>normalized_terms.
           normalize_terms E terms master_df = Inr normalized_terms
           \<and> dict_get normalized_terms c = Some v2
           \<and> length (filter (\<lambda>entry. fst entry = c) normalized_terms) = 1
           \<and> distinct (dict_keys normalized_terms)
           \<and> length normalized_terms < length terms"
proof -
  let ?g = "canonical_name E master_df"
  let ?names = "map (\<lambda>item. (?g (fst item), snd item)) terms"
  let ?n = "foldl (\<lambda>d item. dict_set d (?g (fst item)) (snd item)) [] terms"
  have run: "normalize_terms E terms master_df = Inr ?n"
    by (simp add: normalize_terms_def normalize_loop_fold)
  have g1: "?g k1 = c" and g2: "?g k2 = c"
    using assms(2,3) normalize_key_total [of E master_df] by auto
  have gz: "\<forall>item\<in>set zs. ?g (fst item) \<noteq> c"
    using assms(4) normalize_key_total [of E master_df] by auto
  have "map_of (rev (map (\<lambda>item. (?g (fst item), snd item)) zs)) c = None"
    using gz by (auto simp: map_of_eq_None_iff image_iff)
  then have "map_of (rev ?names) c = Some v2"
    using g2 by (simp add: assms(1) map_of_append map_add_def)
  then have get: "dict_get ?n c = Some v2"
    by (simp add: dict_get_def fold_set_map_of)
  have dist: "distinct (map fst ?n)"
    by (rule fold_set_distinct) simp
  have keys: "set (map fst ?n) = ?g ` fst ` set terms"
    using fold_set_keys [of ?g "[]" terms] by simp
  have "c \<in> set (map fst ?n)"
    unfolding keys using g2 by (force simp: assms(1))
  then have one: "length (filter (\<lambda>entry. fst entry = c) ?n) = 1"
    using key_count [OF dist, of c] by simp
  have "\<not> distinct (map (\<lambda>item. ?g (fst item)) terms)"
    using g1 g2 by (auto simp: assms(1))
  then have "card (set (map (\<lambda>item. ?g (fst item)) terms)) \<noteq> length (map (\<lambda>item. ?g (fst item)) terms)"
    using card_distinct by blast
  then have "card (set (map (\<lambda>item. ?g (fst item)) terms)) < length terms"
    using card_length [of "map (\<lambda>item. ?g (fst item)) terms"] by simp
  moreover have "length ?n = card (set (map fst ?n))"
    using dist distinct_card [of "map fst ?n"] by simp
  moreover have "set (map fst ?n) = set (map (\<lambda>item. ?g (fst item)) terms)"
    unfolding keys by (simp add: image_image)
  ultimately have less: "length ?n < length terms" by simp
  show ?thesis
    using run get one dist less by (auto simp: dict_keys_def)
qed

section \<open>Properties of \<open>structure_data\<close>\<close>

lemma dict_has_get: "dict_has d k \<longleftrightarrow> dict_get d k \<noteq> None"
  by (simp add: dict_has_iff dict_get_def map_of_eq_None_iff)

lemma dict_get_set: "dict_get (dict_set d k v) k' = (if k' = k then Some v else dict_get d k')"
  by (simp add: dict_get_def dict_set_map_of)

lemma pattern_matches_eq:
  "pattern_matches key ms terms =
     (if dict_has terms key \<or> ms = [] then terms else dict_set terms key (strip (hd ms)))"
proof (induction ms arbitrary: terms)
  case Nil
  show ?case by simp
next
  case (Cons m ms)
  show ?case
    by (simp add: Cons.IH dict_has_get dict_get_set)
qed

lemma pattern_loop_get:
  "dict_get (pattern_loop E text keys terms) k =
     (case dict_get terms k of
        Some v \<Rightarrow> Some v
      | None \<Rightarrow> if k \<in> set keys \<and> finditer E k text \<noteq> []
                then Some (strip (hd (finditer E k text))) else None)"
proof (induction keys arbitrary: terms)
  case Nil
  show ?case by (simp split: option.splits)
next
  case (Cons key keys)
  show ?case
    by (auto simp: Cons.IH pattern_matches_eq dict_has_get dict_get_set split: option.splits)
qed

lemma entity_maturity_keeps:
  "dict_get terms k = Some v \<Longrightarrow> dict_get (entity_maturity E text ents terms) k = Some v"
  by (auto simp: entity_maturity_def dict_has_get dict_get_set split: option.splits)

lemma entity_rate_keeps:
  "dict_get terms k = Some v \<Longrightarrow> dict_get (entity_rate text ents terms) k = Some v"
  by (auto simp: entity_rate_def dict_has_get dict_get_set split: option.splits)

lemma entity_counterparty_keeps:
  "dict_get terms k = Some v \<Longrightarrow> dict_get (entity_counterparty ents terms) k = Some v"
  by (auto simp: entity_counterparty_def dict_has_get dict_get_set split: option.splits)

lemma entity_principal_keeps:
  "dict_get terms k = Some v \<Longrightarrow> dict_get (entity_principal text ents terms) k = Some v"
  by (auto simp: entity_principal_def dict_has_get dict_get_set split: option.splits)

lemma entity_stage_keeps:
  "dict_get terms k = Some v \<Longrightarrow> dict_get (entity_stage E text terms) k = Some v"
  by (simp add: entity_stage_def Let_def entity_maturity_keeps entity_rate_keeps
        entity_counterparty_keeps entity_principal_keeps)

lemma fuzzy_loop_find:
  "fuzzy_loop E key val ts terms =
     (case find (\<lambda>term. 65 < fuzz_ratio E key term) ts of
        None \<Rightarrow> terms
      | Some term \<Rightarrow> dict_set terms (snake term) val)"
  by (induction ts) auto

lemma fuzzy_loop_first:
  "i < length ts \<Longrightarrow> 65 < fuzz_ratio E key (ts ! i) \<Longrightarrow>
   \<forall>j<i. fuzz_ratio E key (ts ! j) \<le> 65 \<Longrightarrow>
   fuzzy_loop E key val ts terms = dict_set terms (snake (ts ! i)) val"
proof (induction ts arbitrary: i)
  case Nil
  then show ?case by simp
next
  case (Cons t ts)
  show ?case
  proof (cases i)
    case 0
    then show ?thesis using Cons.prems by simp
  next
    case (Suc n)
    have "fuzz_ratio E key t \<le> 65" using Cons.prems(3) Suc by force
    moreover have "fuzzy_loop E key val ts terms = dict_set terms (snake (ts ! n)) val"
    proof (rule Cons.IH)
      show "n < length ts" using Cons.prems(1) Suc by simp
      show "65 < fuzz_ratio E key (ts ! n)" using Cons.prems(2) Suc by simp
      show "\<forall>j<n. fuzz_ratio E key (ts ! j) \<le> 65"
      proof (intro allI impI)
        fix j assume "j < n"
        then have "Suc j < i" using Suc by simp
        then have "fuzz_ratio E key ((t # ts) ! Suc j) \<le> 65" using Cons.prems(3) by blast
        then show "fuzz_ratio E key (ts ! j) \<le> 65" by simp
      qed
    qed
    ultimately show ?thesis using Suc by simp
  qed
qed

lemma fuzzy_loop_none:
  "\<forall>term\<in>set ts. fuzz_ratio E key term \<le> 65 \<Longrightarrow> fuzzy_loop E key val ts terms = terms"
  by (induction ts) auto

lemma split_once_parts:
  "List.member line sep \<Longrightarrow>
   split_once sep line = [takeWhile (\<lambda>c. c \<noteq> sep) line, tl (dropWhile (\<lambda>c. c \<noteq> sep) line)]"
  by (simp add: split_once_def)

lemma separator_step_write:
  "separator_step E line sep terms =
     (case separator_write E line sep of
        None \<Rightarrow> terms
      | Some (k, w) \<Rightarrow> dict_set terms k w)"
  by (auto simp: separator_step_def separator_write_def split_once_def Let_def fuzzy_loop_find
           split: option.splits)

lemma foldl_map_filter:
  "foldl (\<lambda>t x. case h x of None \<Rightarrow> t | Some (k, w) \<Rightarrow> dict_set t k w) terms xs
     = foldl (\<lambda>d item. dict_set d (fst item) (snd item)) terms (List.map_filter h xs)"
  by (induction xs arbitrary: terms) (auto simp: List.map_filter_simps split: option.splits)

lemma line_step_writes:
  "line_step E line terms
     = foldl (\<lambda>d item. dict_set d (fst item) (snd item)) terms
         (List.map_filter (separator_write E line) separators)"
  using foldl_map_filter [of "separator_write E line" terms separators]
  by (simp add: line_step_def separator_step_write)

lemma line_stage_writes:
  "line_stage E text terms
     = foldl (\<lambda>d item. dict_set d (fst item) (snd item)) terms (line_writes E text)"
proof -
  have "\<And>terms. foldl (\<lambda>t line. line_step E line t) terms ls
          = foldl (\<lambda>d item. dict_set d (fst item) (snd item)) terms
              (concat (map (\<lambda>line. List.map_filter (separator_write E line) separators) ls))"
    for ls
    by (induction ls) (auto simp: line_step_writes)
  then show ?thesis by (simp add: line_stage_def line_writes_def)
qed

lemma line_stage_get:
  "dict_get (line_stage E text terms) key =
     (case map_of (rev (line_writes E text)) key of
        Some w \<Rightarrow> Some w
      | None \<Rightarrow> dict_get terms key)"
  using fold_set_map_of [of "\<lambda>x. x" terms "line_writes E text" key]
  by (auto simp: line_stage_writes dict_get_def split: option.splits)

text \<open>
  C3. \<open>structure_data\<close> runs the pattern stage, then the entity stage, then the line
  stage. The pattern stage keeps a value that is already present and otherwise writes
  the first match of the key's pattern; the entity stage keeps every value that is
  present; the line stage writes unconditionally: a key that some line assigns ends with
  the value of the last such assignment, whatever the earlier stages recorded, and each
  assignment of a separator step overwrites.
\<close>

theorem C3_stage_order_and_overwrite:
  "structure_data E text = line_stage E text (entity_stage E text (pattern_stage E text []))
   \<and> dict_get (pattern_stage E text terms) key
       = (case dict_get terms key of
            Some v \<Rightarrow> Some v
          | None \<Rightarrow> if key \<in> set pattern_keys \<and> finditer E key text \<noteq> []
                    then Some (strip (hd (finditer E key text))) else None)
   \<and> (dict_get terms key = Some v \<longrightarrow> dict_get (entity_stage E text terms) key = Some v)
   \<and> dict_get (line_stage E text terms) key
       = (case map_of (rev (line_writes E text)) key of
            Some w \<Rightarrow> Some w
          | None \<Rightarrow> dict_get terms key)
   \<and> separator_step E line separator terms
       = (case separator_write E line separator of
            None \<Rightarrow> terms
          | Some (k, w) \<Rightarrow> dict_set terms k w)"
  using pattern_loop_get [of E "text" pattern_keys "terms" key]
    entity_stage_keeps [of "terms" key v E "text"]
    line_stage_get [of E "text" "terms" key] separator_step_write [of E line separator "terms"]
  by (simp add: structure_data_def pattern_stage_def)

text \<open>
  C6 (as amended). In the line stage, a candidate key with a value and without a direct
  match in the vocabulary is recorded under the first vocabulary term, in vocabulary
  order, whose similarity to the key is strictly greater than 65; when no term scores
  above 65 that split writes nothing.
\<close>

theorem C6_first_term_above_65:
  assumes "List.member line separator"
      and "key = lower (strip (takeWhile (\<lambda>c. c \<noteq> separator) line))"
      and "val = strip (tl (dropWhile (\<lambda>c. c \<noteq> separator) line))"
      and "val \<noteq> []"
      and "\<not> List.member financial_terms key"
  shows "(\<forall>i. i < length financial_terms
             \<and> 65 < fuzz_ratio E key (financial_terms ! i)
             \<and> (\<forall>j<i. fuzz_ratio E key (financial_terms ! j) \<le> 65) \<longrightarrow>
           separator_step E line separator terms
             = dict_set terms (snake (financial_terms ! i)) val)
       \<and> ((\<forall>term\<in>set financial_terms. fuzz_ratio E key term \<le> 65) \<longrightarrow>
           separator_step E line separator terms = terms)"
proof -
  have step: "separator_step E line separator terms = fuzzy_loop E key val financial_terms terms"
    using assms by (simp add: separator_step_def split_once_def Let_def)
  show ?thesis
    unfolding step using fuzzy_loop_first fuzzy_loop_none by blast
qed

text \<open>The claim as stated fails twice: the key \<open>defaults\<close> is recorded under
  \<open>default rate\<close> (score 70), the first term above 65, not under the best-scoring
  \<open>default\<close> (score 93); and a key whose best score is exactly 65 is not recorded.\<close>

theorem C6_counterexample:
  "indel_ratio ''defaults'' ''default rate'' = 70
   \<and> indel_ratio ''defaults'' ''default'' = 93
   \<and> line_stage plain_env ''defaults: 5'' [] = [(''default_rate'', ''5'')]
   \<and> indel_ratio ''collateral xxxxxxxxxx'' ''collateral'' = 65
   \<and> line_stage plain_env ''collateral xxxxxxxxxx: 5'' [] = []"
  by code_simp

theorem C9_last_writer_wins_witness:
  "\<exists>normalized_terms.
      normalize_terms plain_env [(''interest_rate'', ''5.5''), (''interest_rates'', ''7'')]
        [\<lparr>mTerm = ''Interest Rate'', mExpected = NaN, mRange = NaN\<rparr>] = Inr normalized_terms
      \<and> dict_get normalized_terms ''Interest Rate'' = Some ''7''
      \<and> length (filter (\<lambda>entry. fst entry = ''Interest Rate'') normalized_terms) = 1
      \<and> length normalized_terms < 2"
proof -
  let ?df = "[\<lparr>mTerm = ''Interest Rate'', mExpected = NaN, mRange = NaN\<rparr>]"
  have a: "normalize_key plain_env ?df ''interest_rate'' = Inr ''Interest Rate''"
    by code_simp
  have b: "normalize_key plain_env ?df ''interest_rates'' = Inr ''Interest Rate''"
    by code_simp
  show ?thesis
    using C9_last_writer_wins [of "[(''interest_rate'', ''5.5''), (''interest_rates'', ''7'')]"
        "[]" "''interest_rate''" "''5.5''" "[]" "''interest_rates''" "''7''" "[]"
        plain_env ?df "''Interest Rate''", OF _ a b]
    by auto
qed

theorem C6_first_term_above_65_witness:
  "separator_step plain_env ''defaults: 5'' CHR '':'' [] = [(''default_rate'', ''5'')]
   \<and> separator_step plain_env ''collateral xxxxxxxxxx: 5'' CHR '':'' [(''fee'', ''1'')]
       = [(''fee'', ''1'')]"
proof -
  have k1: "''defaults'' = lower (strip (takeWhile (\<lambda>c. c \<noteq> CHR '':'') ''defaults: 5''))"
    by code_simp
  have v1: "''5'' = strip (tl (dropWhile (\<lambda>c. c \<noteq> CHR '':'') ''defaults: 5''))"
    by code_simp
  have m1: "\<not> List.member financial_terms ''defaults''"
    by code_simp
  have i1: "(8::nat) < length financial_terms
            \<and> 65 < fuzz_ratio plain_env ''defaults'' (financial_terms ! 8)
            \<and> (\<forall>j<8. fuzz_ratio plain_env ''defaults'' (financial_terms ! j) \<le> 65)"
    by code_simp
  have t1: "snake (financial_terms ! 8) = ''default_rate''"
    by code_simp
  have a: "separator_step plain_env ''defaults: 5'' CHR '':'' [] = [(''default_rate'', ''5'')]"
    using C6_first_term_above_65 [of "''defaults: 5''" "CHR '':''" "''defaults''" "''5''" plain_env "[]",
        OF _ k1 v1 _ m1] i1 t1
    by simp
  have k2: "''collateral xxxxxxxxxx''
              = lower (strip (takeWhile (\<lambda>c. c \<noteq> CHR '':'') ''collateral xxxxxxxxxx: 5''))"
    by code_simp
  have v2: "''5'' = strip (tl (dropWhile (\<lambda>c. c \<noteq> CHR '':'') ''collateral xxxxxxxxxx: 5''))"
    by code_simp
  have m2: "\<not> List.member financial_terms ''collateral xxxxxxxxxx''"
    by code_simp
  have n2: "\<forall>term\<in>set financial_terms. fuzz_ratio plain_env ''collateral xxxxxxxxxx'' term \<le> 65"
    by code_simp
  have b: "separator_step plain_env ''collateral xxxxxxxxxx: 5'' CHR '':'' [(''fee'', ''1'')]
             = [(''fee'', ''1'')]"
    using C6_first_term_above_65 [of "''collateral xxxxxxxxxx: 5''" "CHR '':''"
        "''collateral xxxxxxxxxx''" "''5''" plain_env "[(''fee'', ''1'')]", OF _ k2 v2 _ m2] n2
    by simp
  show ?thesis using a b by simp
qed

theorem C3_stage_order_and_overwrite_witness:
  "dict_get (pattern_stage (scenario_env 2026) scenario_text []) ''interest_rate'' = Some ''5.5''
   \<and> dict_get (entity_stage (scenario_env 2026) scenario_text [(''interest_rate'', ''5.5'')])
        ''interest_rate'' = Some ''5.5''
   \<and> dict_get (line_stage (scenario_env 2026) scenario_text [(''interest_rate'', ''5.5'')])
        ''interest_rate'' = Some ''5.5%''"
proof -
  have w: "map_of (rev (line_writes (scenario_env 2026) scenario_text)) ''interest_rate''
             = Some ''5.5%''"
    by code_simp
  have f: "finditer (scenario_env 2026) ''interest_rate'' scenario_text = [''5.5'']"
    by (simp add: scenario_env_def)
  have s: "strip ''5.5'' = ''5.5''" by code_simp
  have p: "List.member pattern_keys ''interest_rate''" by code_simp
  have a: "dict_get (pattern_stage (scenario_env 2026) scenario_text []) ''interest_rate'' = Some ''5.5''"
    using C3_stage_order_and_overwrite [of "scenario_env 2026" scenario_text "[]" "''interest_rate''"]
      f s p
    by (simp add: dict_get_def)
  have b: "dict_get (entity_stage (scenario_env 2026) scenario_text [(''interest_rate'', ''5.5'')])
        ''interest_rate'' = Some ''5.5''"
    using C3_stage_order_and_overwrite [of "scenario_env 2026" scenario_text
        "[(''interest_rate'', ''5.5'')]" "''interest_rate''" "''5.5''"]
    by (simp add: dict_get_def)
  have c: "dict_get (line_stage (scenario_env 2026) scenario_text [(''interest_rate'', ''5.5'')])
        ''interest_rate'' = Some ''5.5%''"
    using C3_stage_order_and_overwrite [of "scenario_env 2026" scenario_text
        "[(''interest_rate'', ''5.5'')]" "''interest_rate''"] w
    by simp
  show ?thesis using a b c by simp
qed

section \<open>The end-to-end scenario and the text domain\<close>

lemma scenario_env_simps [simp]:
  "finditer (scenario_env y) = (\<lambda>key text. if key = ''interest_rate'' then [''5.5'']
                             else if key = ''maturity_date'' then [''2030-01-01''] else [])"
  "nlp_ents (scenario_env y) = (\<lambda>text. [\<lparr>label = PERCENT, ent_text = ''5.5%'', start_char = 15\<rparr>,
                           \<lparr>label = DATE, ent_text = ''2030-01-01'', start_char = 35\<rparr>])"
  "fuzz_ratio (scenario_env y) = indel_ratio"
  "date_parse_ok (scenario_env y) = (\<lambda>s. simple_date y s \<noteq> None)"
  "dateparser_parse (scenario_env y) = simple_date y"
  by (simp_all add: scenario_env_def)















lemma validate_text_expected:
  "validate_text E s (Str e) r
     = (if lower s = lower (strip e) then (True, TextMatchesExpected)
        else if 90 \<le> fuzz_ratio E (lower s) (lower (strip e))
        then (True, TextMatchesWithSimilarity (fuzz_ratio E (lower s) (lower (strip e))))
        else (False, TextMismatch (fuzz_ratio E (lower s) (lower (strip e)))))"
  by (simp add: validate_text_def notna_def cell_str_def Let_def)

text \<open>
  C7. In the text domain, a value that fails both the exact and the fuzzy comparison
  with the expected value is Invalid with the similarity note whatever the allowed range
  is: the enumeration is read only when the rule has no expected value. \<open>Delaware\<close>,
  expected \<open>New York\<close>, allowed \<open>New York|Delaware\<close>, is Invalid; without the expected
  value it is Valid.
\<close>

theorem C7_range_not_read_after_mismatch:
  "validate_text E s (Str e) r
     = (if lower s = lower (strip e) then (True, TextMatchesExpected)
        else if 90 \<le> fuzz_ratio E (lower s) (lower (strip e))
        then (True, TextMatchesWithSimilarity (fuzz_ratio E (lower s) (lower (strip e))))
        else (False, TextMismatch (fuzz_ratio E (lower s) (lower (strip e)))))
   \<and> validate_text plain_env ''Delaware'' (Str ''New York'') (Str ''New York|Delaware'')
       = (False, TextMismatch 38)
   \<and> validate_text plain_env ''Delaware'' NaN (Str ''New York|Delaware'')
       = (True, TextInAllowedValues)
   \<and> validate_text plain_env ''Texas'' NaN (Str ''New York|Delaware'')
       = (False, TextNotInAllowedValues [''New York'', ''Delaware''])"
proof -
  have a: "validate_text plain_env ''Delaware'' (Str ''New York'') (Str ''New York|Delaware'')
       = (False, TextMismatch 38)"
    by code_simp
  have b: "validate_text plain_env ''Delaware'' NaN (Str ''New York|Delaware'')
       = (True, TextInAllowedValues)"
    by code_simp
  have c: "validate_text plain_env ''Texas'' NaN (Str ''New York|Delaware'')
       = (False, TextNotInAllowedValues [''New York'', ''Delaware''])"
    by code_simp
  show ?thesis using validate_text_expected [of E s e r] a b c by simp
qed

end
